theory Spec2Isabelle
  imports Main "HOL-Library.Word"
begin

section \<open>Connext DDS getting-started examples: argument parser, shutdown flag, run loops\<close>

text \<open>
  The development embeds \<^verbatim>\<open>1_hello_world/c++11/application.hpp\<close>,
  \<^verbatim>\<open>1_hello_world/c++11/hello_world_publisher.cxx\<close> and
  \<^verbatim>\<open>2_streaming_data/c++98/temperature_publisher.cxx\<close>.
  The DDS middleware and the C library are outside the repository: their calls are
  recorded as events, and what they return is read from an environment record.
\<close>

subsection \<open>Output streams\<close>

text \<open>Every \<^verbatim>\<open><<\<close> on \<^verbatim>\<open>std::cout\<close> or \<^verbatim>\<open>std::cerr\<close> appends one item.\<close>

datatype out_item = Str string | Num int | Endl

subsection \<open>The C library's \<^verbatim>\<open>atoi\<close>\<close>

text \<open>
  \<^verbatim>\<open>atoi\<close> (ISO C 7.22.1.2, through \<^verbatim>\<open>strtol\<close> in base 10) skips white space, takes an
  optional sign and then the longest run of decimal digits; an empty run gives 0. When the
  value does not fit \<^verbatim>\<open>int\<close> (32 bits here) the behaviour is undefined: the model
  returns \<open>None\<close> there.
\<close>

definition isspace :: "char \<Rightarrow> bool" where
  "isspace c = (c \<in> set [CHR '' '', CHR 0x09, CHR 0x0A, CHR 0x0B, CHR 0x0C, CHR 0x0D])"

definition isdigit :: "char \<Rightarrow> bool" where
  "isdigit c = (48 \<le> (of_char c :: nat) \<and> (of_char c :: nat) \<le> 57)"

definition digit_value :: "char \<Rightarrow> int" where
  "digit_value c = int (of_char c) - 48"

fun digits :: "int \<Rightarrow> string \<Rightarrow> int" where
  "digits acc [] = acc"
| "digits acc (c # cs) = (if isdigit c then digits (10 * acc + digit_value c) cs else acc)"

definition INT_MAX :: int where
  "INT_MAX = 2147483647"

definition INT_MIN :: int where
  "INT_MIN = - 2147483648"

definition signed_digits :: "string \<Rightarrow> int" where
  "signed_digits s =
     (case s of
        [] \<Rightarrow> 0
      | c # cs \<Rightarrow>
          if c = CHR ''-'' then - digits 0 cs
          else if c = CHR ''+'' then digits 0 cs
          else digits 0 s)"

definition atoi :: "string \<Rightarrow> int option" where
  "atoi s =
     (let r = signed_digits (dropWhile isspace s)
      in if INT_MIN \<le> r \<and> r \<le> INT_MAX then Some r else None)"

subsection \<open>\<^verbatim>\<open>application.hpp\<close>: the parsed arguments\<close>

datatype ParseReturn = PARSE_RETURN_OK | PARSE_RETURN_FAILURE | PARSE_RETURN_EXIT

text \<open>
  \<^verbatim>\<open>unsigned int\<close> is a 32-bit word. \<^verbatim>\<open>rti::config::Verbosity\<close> is declared by the
  middleware; it is kept as the integer of its inner enumeration.
\<close>

record ApplicationArguments =
  parse_result :: ParseReturn
  domain_id :: "32 word"
  sample_count :: "32 word"
  verbosity :: int

text \<open>
  The local variables of \<^verbatim>\<open>parse_arguments\<close>: the four values it returns, the scan
  position and the usage flag. \<open>printed\<close> is what it sends to \<^verbatim>\<open>std::cout\<close>;
  \<open>accessed\<close> lists the indices of \<^verbatim>\<open>argv\<close> it reads, in order.
\<close>

record parse_locals = ApplicationArguments +
  arg_processing :: nat
  show_usage :: bool
  printed :: "out_item list"
  accessed :: "nat list"

text \<open>
  What the source leaves undefined. \<open>Null_argument i\<close>: \<^verbatim>\<open>argv[i]\<close> was read with
  \<open>i\<close> not below the number of tokens (\<^verbatim>\<open>argv[argc]\<close> is the null pointer, which
  \<^verbatim>\<open>atoi\<close> and \<^verbatim>\<open>strcmp\<close> dereference). \<open>Atoi_range i\<close>: the value of
  \<^verbatim>\<open>argv[i]\<close> does not fit \<^verbatim>\<open>int\<close>.
\<close>

datatype fault = Null_argument nat | Atoi_range nat

datatype 'a flow = Continue 'a | Break 'a | Fault fault 'a

definition touch :: "nat \<Rightarrow> parse_locals \<Rightarrow> parse_locals" where
  "touch i s = s\<lparr>accessed := accessed s @ [i]\<rparr>"

text \<open>\<^verbatim>\<open>atoi(argv[i])\<close>: the read is recorded, then converted.\<close>

definition atoi_arg ::
  "string list \<Rightarrow> nat \<Rightarrow> parse_locals \<Rightarrow> (int \<Rightarrow> parse_locals \<Rightarrow> parse_locals) \<Rightarrow> parse_locals flow"
where
  "atoi_arg argv i s assign =
     (if i < length argv then
        (case atoi (argv ! i) of
           None \<Rightarrow> Fault (Atoi_range i) (touch i s)
         | Some n \<Rightarrow> Continue (assign n (touch i s)))
      else Fault (Null_argument i) (touch i s))"

definition usage_text :: string where
  "usage_text =
     ''Usage:\<newline>'' @
     ''    -d, --domain       <int>   Domain ID this application will\<newline>'' @
     ''                               subscribe in.  \<newline>'' @
     ''                               Default: 0\<newline>'' @
     ''    -s, --sample_count <int>   Number of samples to receive before\<newline>'' @
     ''                               cleanly shutting down. \<newline>'' @
     ''                               Default: infinite\<newline>'' @
     ''    -v, --verbosity    <int>   How much debugging output to show.\<newline>'' @
     ''                               Range: 0-5 \<newline>'' @
     ''                               Default: 0''"

text \<open>
  One pass through the body of the \<^verbatim>\<open>while\<close> loop. The tokens are C strings, so
  \<^verbatim>\<open>strcmp(a, b) == 0\<close> is equality. Assigning the \<^verbatim>\<open>int\<close> of \<^verbatim>\<open>atoi\<close> to an
  \<^verbatim>\<open>unsigned int\<close> reduces it modulo \<open>2 ^ 32\<close>.
\<close>

definition parse_body :: "string list \<Rightarrow> parse_locals \<Rightarrow> parse_locals flow" where
  "parse_body argv s =
     (let i = arg_processing s in
      if i < length argv then
        (let a = argv ! i; s1 = touch i s in
         if a = ''-d'' \<or> a = ''--domain'' then
           atoi_arg argv (i + 1) s1
             (\<lambda>n t. t\<lparr>domain_id := word_of_int n, arg_processing := i + 2\<rparr>)
         else if a = ''-s'' \<or> a = ''--sample-count'' then
           atoi_arg argv (i + 1) s1
             (\<lambda>n t. t\<lparr>sample_count := word_of_int n, arg_processing := i + 2\<rparr>)
         else if a = ''-v'' \<or> a = ''--verbosity'' then
           atoi_arg argv (i + 1) s1
             (\<lambda>n t. t\<lparr>verbosity := n, arg_processing := i + 2\<rparr>)
         else if a = ''-h'' \<or> a = ''--help'' then
           Break (s1\<lparr>printed := printed s1 @ [Str ''Example application.'', Endl],
                     show_usage := True,
                     parse_result := PARSE_RETURN_EXIT\<rparr>)
         else
           Break (s1\<lparr>printed := printed s1 @ [Str ''Bad parameter.'', Endl],
                     show_usage := True,
                     parse_result := PARSE_RETURN_FAILURE\<rparr>))
      else Fault (Null_argument i) (touch i s))"

function parse_loop :: "nat \<Rightarrow> string list \<Rightarrow> parse_locals \<Rightarrow> fault option \<times> parse_locals" where
  "parse_loop argc argv s =
     (if arg_processing s < argc then
        (case parse_body argv s of
           Continue s' \<Rightarrow> parse_loop argc argv s'
         | Break s' \<Rightarrow> (None, s')
         | Fault f s' \<Rightarrow> (Some f, s'))
      else (None, s))"
  by pat_completeness auto
termination
proof (relation "measure (\<lambda>(argc, argv, s). argc - arg_processing s)")
  fix argc :: nat and argv s s'
  assume "arg_processing s < argc" and "parse_body argv s = Continue s'"
  moreover from this have "arg_processing s' = arg_processing s + 2"
    by (auto simp: parse_body_def atoi_arg_def touch_def Let_def
             split: if_splits option.splits)
  ultimately show "((argc, argv, s'), (argc, argv, s))
      \<in> measure (\<lambda>(argc, argv, s). argc - arg_processing s)"
    by simp
qed simp

declare parse_loop.simps [simp del]

text \<open>
  \<^verbatim>\<open>parse_arguments\<close>. \<open>EXCEPTION\<close> stands for
  \<^verbatim>\<open>rti::config::Verbosity::EXCEPTION\<close>, whose value the middleware's headers give.
  The result is the fault, if any, or the returned structure, together with the final
  locals (for what was printed and read).
\<close>

definition parse_init :: "int \<Rightarrow> parse_locals" where
  "parse_init EXCEPTION =
     \<lparr>parse_result = PARSE_RETURN_OK, domain_id = 0, sample_count = 0,
      verbosity = EXCEPTION, arg_processing = 1, show_usage = False,
      printed = [], accessed = []\<rparr>"

definition print_usage :: "parse_locals \<Rightarrow> parse_locals" where
  "print_usage s =
     (if show_usage s then s\<lparr>printed := printed s @ [Str usage_text, Endl]\<rparr> else s)"

definition parse_arguments ::
  "int \<Rightarrow> nat \<Rightarrow> string list \<Rightarrow> (fault + ApplicationArguments) \<times> parse_locals"
where
  "parse_arguments EXCEPTION argc argv =
     (case parse_loop argc argv (parse_init EXCEPTION) of
        (Some f, s) \<Rightarrow> (Inl f, s)
      | (None, s) \<Rightarrow>
          (let s' = print_usage s in (Inr (ApplicationArguments.truncate s'), s')))"

subsection \<open>\<^verbatim>\<open>application.hpp\<close>: the shutdown flag\<close>

datatype signum = SIGINT | SIGTERM

text \<open>
  The sample type of the temperature example. Its declaration is generated from the IDL file
  and is not among the sources: these are the two members the publisher fills.
\<close>

record Temperature =
  sensor_id :: string
  degrees :: int

text \<open>The calls into the C library's signal interface and into the middleware.\<close>

datatype call =
    Install_handler signum
  | Set_verbosity int
  | Create_participant int
  | Create_publisher
  | Register_type
  | Create_topic string
  | Create_datawriter
  | Narrow
  | Create_data
  | Write_HelloMessage
  | Write_Temperature Temperature
  | Sleep nat
  | Delete_data
  | Delete_contained_entities
  | Delete_participant
  | Finalize_participant_factory
  | Finalize_instance

text \<open>
  The state of the process that the examples change: the flag \<^verbatim>\<open>running\<close>, the two
  output streams and the calls made so far.
\<close>

record world =
  running :: bool
  cout :: "out_item list"
  cerr :: "out_item list"
  calls :: "call list"

text \<open>\<^verbatim>\<open>bool running = true;\<close> at process start.\<close>

definition initial_world :: world where
  "initial_world = \<lparr>running = True, cout = [], cerr = [], calls = []\<rparr>"

definition put_cout :: "out_item list \<Rightarrow> world \<Rightarrow> world" where
  "put_cout xs w = w\<lparr>cout := cout w @ xs\<rparr>"

definition put_cerr :: "out_item list \<Rightarrow> world \<Rightarrow> world" where
  "put_cerr xs w = w\<lparr>cerr := cerr w @ xs\<rparr>"

definition invoke :: "call \<Rightarrow> world \<Rightarrow> world" where
  "invoke c w = w\<lparr>calls := calls w @ [c]\<rparr>"

definition stop_handler :: "world \<Rightarrow> world" where
  "stop_handler w = put_cout [Str ''preparing to shut down...'', Endl] (w\<lparr>running := False\<rparr>)"

definition setup_signal_handlers :: "world \<Rightarrow> world" where
  "setup_signal_handlers w = invoke (Install_handler SIGTERM) (invoke (Install_handler SIGINT) w)"

definition set_verbosity :: "int \<Rightarrow> world \<Rightarrow> world" where
  "set_verbosity v w = invoke (Set_verbosity v) w"

text \<open>
  Signals arrive from outside. \<open>signals env k\<close> says that SIGINT or SIGTERM is delivered,
  with the handlers installed, after the loop condition has been tested \<open>k\<close> times and
  before it is tested again; the handler then runs before that test.
\<close>

record environment =
  signals :: "nat \<Rightarrow> bool"

definition deliver :: "'a environment_scheme \<Rightarrow> nat \<Rightarrow> world \<Rightarrow> world" where
  "deliver env k w = (if signals env k then stop_handler w else w)"

text \<open>The two exit statuses of \<^verbatim>\<open><stdlib.h>\<close>.\<close>

definition EXIT_SUCCESS :: int where
  "EXIT_SUCCESS = 0"

definition EXIT_FAILURE :: int where
  "EXIT_FAILURE = 1"

subsection \<open>\<^verbatim>\<open>hello_world_publisher.cxx\<close>\<close>

text \<open>
  The modern C++ API reports failure by throwing. The environment says which
  constructor throws, which \<^verbatim>\<open>write\<close> throws (by iteration), the text of
  \<^verbatim>\<open>ex.what()\<close>, and the value of \<^verbatim>\<open>rti::config::Verbosity::EXCEPTION\<close>.
  What the destructors of the entities do when \<^verbatim>\<open>run_example\<close> is left is inside the
  middleware and is not recorded.
\<close>

record hello_env = environment +
  Verbosity_EXCEPTION :: int
  participant_throws :: bool
  topic_throws :: bool
  publisher_throws :: bool
  datawriter_throws :: bool
  write_throws :: "nat \<Rightarrow> bool"
  what :: string

datatype outcome = Returned world | Thrown world

text \<open>
  \<^verbatim>\<open>count++\<close> on \<^verbatim>\<open>int\<close>: the value is kept as an integer and reduced to 32 bits
  in two's complement, as the compiled code does (the language leaves the overflow
  undefined).
\<close>

definition increment_int :: "int \<Rightarrow> int" where
  "increment_int count = signed_take_bit 31 (count + 1)"

text \<open>
  The \<^verbatim>\<open>for\<close> loop of \<^verbatim>\<open>run_example\<close>; \<open>limit\<close> is its parameter
  \<^verbatim>\<open>sample_count\<close>. \<open>k\<close> counts the tests of the loop condition
  made so far; it is not a variable of the source and only selects what the environment
  does. The loop need not end: \<open>None\<close> is the run that never leaves it.
\<close>

partial_function (option) hello_loop ::
  "hello_env \<Rightarrow> int \<Rightarrow> nat \<Rightarrow> int \<Rightarrow> world \<Rightarrow> outcome option"
where
  "hello_loop env limit k count w =
     (let w1 = deliver env k w in
      if running w1 \<and> (count < limit \<or> limit = 0) then
        (let w2 = put_cout [Str ''Writing HelloMessage, count '', Num count, Endl] w1;
             w3 = invoke Write_HelloMessage w2
         in if write_throws env k then Some (Thrown w3)
            else hello_loop env limit (Suc k) (increment_int count)
                   (invoke (Sleep 4) w3))
      else Some (Returned w1))"

declare hello_loop.simps [code]

definition hello_run_example :: "hello_env \<Rightarrow> int \<Rightarrow> int \<Rightarrow> world \<Rightarrow> outcome option" where
  "hello_run_example env domain limit w =
     (let w1 = invoke (Create_participant domain) w in
      if participant_throws env then Some (Thrown w1)
      else let w2 = invoke (Create_topic ''Example HelloMessage'') w1 in
      if topic_throws env then Some (Thrown w2)
      else let w3 = invoke Create_publisher w2 in
      if publisher_throws env then Some (Thrown w3)
      else let w4 = invoke Create_datawriter w3 in
      if datawriter_throws env then Some (Thrown w4)
      else hello_loop env limit 0 0 w4)"

text \<open>
  \<^verbatim>\<open>main\<close>, from the initial state of the process. The two \<^verbatim>\<open>unsigned int\<close> fields
  are passed to \<^verbatim>\<open>int\<close> parameters, which reads them in two's complement. The result is
  \<open>None\<close> when the program never ends, the fault of the parser, or the exit code and
  the final state.
\<close>

definition hello_main :: "hello_env \<Rightarrow> nat \<Rightarrow> string list \<Rightarrow> (fault + int \<times> world) option" where
  "hello_main env argc argv =
     (case parse_arguments (Verbosity_EXCEPTION env) argc argv of
        (Inl f, s) \<Rightarrow> Some (Inl f)
      | (Inr arguments, s) \<Rightarrow>
          (let w0 = put_cout (printed s) initial_world in
           if parse_result arguments = PARSE_RETURN_EXIT then Some (Inr (EXIT_SUCCESS, w0))
           else if parse_result arguments = PARSE_RETURN_FAILURE then
             Some (Inr (EXIT_FAILURE, w0))
           else
             (let w1 = setup_signal_handlers w0;
                  w2 = set_verbosity (verbosity arguments) w1
              in case hello_run_example env (sint (domain_id arguments))
                        (sint (sample_count arguments)) w2 of
                   None \<Rightarrow> None
                 | Some (Thrown w3) \<Rightarrow>
                     Some (Inr (EXIT_FAILURE,
                       put_cerr [Str ''Exception in publisher_main(): '', Str (what env), Endl] w3))
                 | Some (Returned w3) \<Rightarrow>
                     Some (Inr (EXIT_SUCCESS, invoke Finalize_participant_factory w3)))))"

subsection \<open>\<^verbatim>\<open>temperature_publisher.cxx\<close>\<close>

text \<open>A pointer returned by the middleware: \<open>None\<close> is \<^verbatim>\<open>NULL\<close>.\<close>

type_synonym pointer = "nat option"

text \<open>
  The classic API reports failure by a null pointer or a return code. The environment
  gives the value of \<^verbatim>\<open>DDS_RETCODE_OK\<close> (a constant of the middleware's headers) and
  what each call returns; \<^verbatim>\<open>write\<close> and \<^verbatim>\<open>rand\<close> are indexed by iteration.
\<close>

record temperature_env = environment +
  DDS_RETCODE_OK :: int
  create_participant_result :: pointer
  create_publisher_result :: pointer
  register_type_result :: int
  create_topic_result :: pointer
  create_datawriter_result :: pointer
  narrow_result :: pointer
  create_data_result :: pointer
  rand_result :: "nat \<Rightarrow> nat"
  write_result :: "nat \<Rightarrow> int"
  delete_data_result :: int
  delete_contained_entities_result :: int
  delete_participant_result :: int
  finalize_instance_result :: int

text \<open>\<^verbatim>\<open>shutdown\<close>: deletes all entities and returns the exit status.\<close>

definition shutdown ::
  "temperature_env \<Rightarrow> pointer \<Rightarrow> string \<Rightarrow> int \<Rightarrow> world \<Rightarrow> int \<times> world"
where
  "shutdown env participant shutdown_message status w =
     (let w1 = put_cout [Str shutdown_message, Endl] w in
      if participant \<noteq> None then
        (let w2 = invoke Delete_contained_entities w1;
             retcode = delete_contained_entities_result env;
             (status1, w3) =
               (if retcode \<noteq> DDS_RETCODE_OK env then
                  (EXIT_FAILURE,
                   put_cerr [Str ''delete_contained_entities error '', Num retcode, Endl] w2)
                else (status, w2));
             w4 = invoke Delete_participant w3;
             retcode = delete_participant_result env;
             (status2, w5) =
               (if retcode \<noteq> DDS_RETCODE_OK env then
                  (EXIT_FAILURE, put_cerr [Str ''delete_participant error '', Num retcode, Endl] w4)
                else (status1, w4))
         in (status2, w5))
      else (status, w1))"

text \<open>
  The main loop of \<^verbatim>\<open>run_example\<close>; \<open>limit\<close> is its parameter \<^verbatim>\<open>sample_count\<close>
  and \<open>sensor\<close> its parameter \<^verbatim>\<open>sensor_id\<close>. \<^verbatim>\<open>count\<close> is an
  \<^verbatim>\<open>unsigned int\<close>, so \<^verbatim>\<open>++count\<close> wraps. \<^verbatim>\<open>snprintf\<close> with size 255 keeps at most
  254 characters. \<open>k\<close> is as in \<open>hello_loop\<close>.
\<close>

partial_function (option) temperature_loop ::
  "temperature_env \<Rightarrow> 32 word \<Rightarrow> string \<Rightarrow> nat \<Rightarrow> 32 word \<Rightarrow> world \<Rightarrow> world option"
where
  "temperature_loop env limit sensor k count w =
     (let w1 = deliver env k w in
      if running w1 \<and> (limit = 0 \<or> count < limit) then
        (let sample = \<lparr>sensor_id = take 254 sensor,
                       degrees = int (rand_result env k mod 3) + 30\<rparr>;
             w2 = put_cout [Str ''Writing ChocolateTemperature, count '', Num (uint count), Endl] w1;
             w3 = invoke (Write_Temperature sample) w2;
             retcode = write_result env k;
             w4 = (if retcode \<noteq> DDS_RETCODE_OK env
                   then put_cerr [Str ''write error '', Num retcode, Endl] w3 else w3);
             w5 = invoke (Sleep 4) w4
         in temperature_loop env limit sensor (Suc k) (count + 1) w5)
      else Some w1)"

declare temperature_loop.simps [code]

definition temperature_run_example ::
  "temperature_env \<Rightarrow> 32 word \<Rightarrow> 32 word \<Rightarrow> string \<Rightarrow> world \<Rightarrow> (int \<times> world) option"
where
  "temperature_run_example env domain limit sensor w =
     (let w1 = invoke (Create_participant (uint domain)) w;
          participant = create_participant_result env in
      if participant = None then
        Some (shutdown env participant ''create_participant error'' EXIT_FAILURE w1)
      else let w2 = invoke Create_publisher w1 in
      if create_publisher_result env = None then
        Some (shutdown env participant ''create_publisher error'' EXIT_FAILURE w2)
      else let w3 = invoke Register_type w2 in
      if register_type_result env \<noteq> DDS_RETCODE_OK env then
        Some (shutdown env participant ''register_type error'' EXIT_FAILURE w3)
      else let w4 = invoke (Create_topic ''ChocolateTemperature'') w3 in
      if create_topic_result env = None then
        Some (shutdown env participant ''create_topic error'' EXIT_FAILURE w4)
      else let w5 = invoke Create_datawriter w4 in
      if create_datawriter_result env = None then
        Some (shutdown env participant ''create_datawriter error'' EXIT_FAILURE w5)
      else let w6 = invoke Narrow w5 in
      if narrow_result env = None then
        Some (shutdown env participant ''DataWriter narrow error'' EXIT_FAILURE w6)
      else let w7 = invoke Create_data w6 in
      if create_data_result env = None then
        Some (shutdown env participant ''TemperatureTypeSupport::create_data error''
                EXIT_FAILURE w7)
      else
        (case temperature_loop env limit sensor 0 0 w7 of
           None \<Rightarrow> None
         | Some w8 \<Rightarrow>
             (let w9 = invoke Delete_data w8;
                  retcode = delete_data_result env;
                  w10 = (if retcode \<noteq> DDS_RETCODE_OK env
                         then put_cerr [Str ''TemperatureTypeSupport::delete_data error '',
                                        Num retcode, Endl] w9
                         else w9)
              in Some (shutdown env participant ''shutting down'' EXIT_SUCCESS w10))))"

text \<open>
  \<^verbatim>\<open>main\<close>. Its \<^verbatim>\<open>parse_arguments\<close> comes from \<^verbatim>\<open>application.h\<close>, which is not among
  the sources: the structure it fills is a parameter (\<open>arguments\<close>, with the sensor
  identifier beside it), and nothing is printed for it.
\<close>

definition temperature_main ::
  "temperature_env \<Rightarrow> ApplicationArguments \<Rightarrow> string \<Rightarrow> (int \<times> world) option"
where
  "temperature_main env arguments sensor =
     (if parse_result arguments = PARSE_RETURN_EXIT then Some (EXIT_SUCCESS, initial_world)
      else if parse_result arguments = PARSE_RETURN_FAILURE then
        Some (EXIT_FAILURE, initial_world)
      else
        (let w1 = setup_signal_handlers initial_world;
             w2 = set_verbosity (verbosity arguments) w1
         in case temperature_run_example env (domain_id arguments) (sample_count arguments)
                   sensor w2 of
              None \<Rightarrow> None
            | Some (status, w3) \<Rightarrow>
                (let w4 = invoke Finalize_instance w3;
                     retcode = finalize_instance_result env
                 in if retcode \<noteq> DDS_RETCODE_OK env then
                      Some (EXIT_FAILURE,
                            put_cerr [Str ''finalize_instance error '', Num retcode, Endl] w4)
                    else Some (status, w4))))"

section \<open>Vocabulary of the properties\<close>

text \<open>The flags that take a value, and the two spellings of the help flag.\<close>

definition value_flag :: "string \<Rightarrow> bool" where
  "value_flag a = (a \<in> set [''-d'', ''--domain'', ''-s'', ''--sample-count'', ''-v'', ''--verbosity''])"

definition help_flag :: "string \<Rightarrow> bool" where
  "help_flag a = (a = ''-h'' \<or> a = ''--help'')"

text \<open>The tokens of a list of (flag, value) pairs, in order.\<close>

fun flag_tokens :: "(string \<times> string) list \<Rightarrow> string list" where
  "flag_tokens [] = []"
| "flag_tokens ((f, v) # ps) = f # v # flag_tokens ps"

text \<open>
  The integer a run of decimal digits denotes. A valid integer token is a non-empty run of
  decimal digits whose value fits \<^verbatim>\<open>int\<close>: the fields it is stored in are unsigned.
\<close>

definition decimal :: "string \<Rightarrow> int" where
  "decimal s = foldl (\<lambda>a c. 10 * a + digit_value c) 0 s"

definition valid_integer :: "string \<Rightarrow> bool" where
  "valid_integer s = (s \<noteq> [] \<and> list_all isdigit s \<and> decimal s \<le> INT_MAX)"

text \<open>
  A token is non-numeric when it does not begin with a number: after leading white space
  and an optional sign, no decimal digit follows. Every token without a digit is so.
\<close>

definition non_numeric :: "string \<Rightarrow> bool" where
  "non_numeric s =
     (case dropWhile isspace s of
        [] \<Rightarrow> True
      | c # cs \<Rightarrow>
          if c = CHR ''-'' \<or> c = CHR ''+'' then (case cs of [] \<Rightarrow> True | d # ds \<Rightarrow> \<not> isdigit d)
          else \<not> isdigit c)"

text \<open>
  The value token given with the last pair whose flag is one of \<open>names\<close>, if any; the
  integer a field is expected to hold (\<open>d\<close> when the flag does not occur); and the field
  a value-taking flag sets, read as an integer.
\<close>

definition given :: "string list \<Rightarrow> (string \<times> string) list \<Rightarrow> string option" where
  "given names ps = map_option snd (find (\<lambda>p. fst p \<in> set names) (rev ps))"

definition flag_value :: "string list \<Rightarrow> int \<Rightarrow> (string \<times> string) list \<Rightarrow> int" where
  "flag_value names d ps = (case given names ps of None \<Rightarrow> d | Some v \<Rightarrow> decimal v)"

definition flag_field :: "string \<Rightarrow> 'a ApplicationArguments_scheme \<Rightarrow> int" where
  "flag_field f a =
     (if f = ''-d'' \<or> f = ''--domain'' then uint (domain_id a)
      else if f = ''-s'' \<or> f = ''--sample-count'' then uint (sample_count a)
      else verbosity a)"

text \<open>
  Every value-taking flag among the tokens after the program name is followed by one more
  token.
\<close>

definition followed :: "string list \<Rightarrow> bool" where
  "followed argv = (\<forall>i \<in> {1 ..< length argv}. value_flag (argv ! i) \<longrightarrow> i + 1 < length argv)"

text \<open>An environment of the hello world publisher in which nothing fails and no signal comes.\<close>

definition calm_hello_env :: hello_env where
  "calm_hello_env =
     \<lparr>signals = (\<lambda>k. False), Verbosity_EXCEPTION = 1, participant_throws = False,
      topic_throws = False, publisher_throws = False, datawriter_throws = False,
      write_throws = (\<lambda>k. False), what = []\<rparr>"

text \<open>
  The locals after the loop body has gone through one (flag, value) pair, and through a list
  of them. They are used only where the conversion of each value is defined.
\<close>

definition store :: "string \<Rightarrow> int \<Rightarrow> parse_locals \<Rightarrow> parse_locals" where
  "store f n s =
     (if f = ''-d'' \<or> f = ''--domain'' then s\<lparr>domain_id := word_of_int n\<rparr>
      else if f = ''-s'' \<or> f = ''--sample-count'' then s\<lparr>sample_count := word_of_int n\<rparr>
      else s\<lparr>verbosity := n\<rparr>)"

definition scan_pair :: "string \<Rightarrow> string \<Rightarrow> parse_locals \<Rightarrow> parse_locals" where
  "scan_pair f v s =
     (let i = arg_processing s
      in (store f (the (atoi v)) (touch (i + 1) (touch i s)))\<lparr>arg_processing := i + 2\<rparr>)"

fun scan_pairs :: "(string \<times> string) list \<Rightarrow> parse_locals \<Rightarrow> parse_locals" where
  "scan_pairs [] s = s"
| "scan_pairs ((f, v) # ps) s = scan_pairs ps (scan_pair f v s)"

text \<open>
  An environment of the temperature publisher in which every call succeeds and no signal
  comes, and three variants: every \<^verbatim>\<open>write\<close> fails; \<^verbatim>\<open>create_publisher\<close> returns
  \<^verbatim>\<open>NULL\<close>; \<^verbatim>\<open>delete_participant\<close> and \<^verbatim>\<open>finalize_instance\<close> fail.
\<close>

definition calm_temperature_env :: temperature_env where
  "calm_temperature_env =
     \<lparr>signals = (\<lambda>k. False), DDS_RETCODE_OK = 0,
      create_participant_result = Some 1, create_publisher_result = Some 2,
      register_type_result = 0, create_topic_result = Some 3,
      create_datawriter_result = Some 4, narrow_result = Some 4,
      create_data_result = Some 5, rand_result = (\<lambda>k. 7), write_result = (\<lambda>k. 0),
      delete_data_result = 0, delete_contained_entities_result = 0,
      delete_participant_result = 0, finalize_instance_result = 0\<rparr>"

definition write_failure_env :: temperature_env where
  "write_failure_env = calm_temperature_env\<lparr>write_result := (\<lambda>k. 1)\<rparr>"

definition publisher_failure_env :: temperature_env where
  "publisher_failure_env = calm_temperature_env\<lparr>create_publisher_result := None\<rparr>"

definition teardown_failure_env :: temperature_env where
  "teardown_failure_env =
     calm_temperature_env\<lparr>delete_participant_result := 3, finalize_instance_result := 4\<rparr>"

text \<open>The hello world publisher's environment in which the second \<^verbatim>\<open>write\<close> throws.\<close>

definition throwing_hello_env :: hello_env where
  "throwing_hello_env = calm_hello_env\<lparr>write_throws := (\<lambda>k. k = 1)\<rparr>"

text \<open>The state an outcome of the hello world publisher carries.\<close>

definition world_of :: "outcome \<Rightarrow> world" where
  "world_of r = (case r of Returned w \<Rightarrow> w | Thrown w \<Rightarrow> w)"

text \<open>
  The set-up of \<open>temperature_run_example\<close> as a table: its calls in order, and for each
  whether it failed and the message \<open>shutdown\<close> is given then. The teardown makes its two
  calls when the participant exists, and reports on \<^verbatim>\<open>std::cerr\<close> those that fail.
\<close>

definition setup_calls :: "32 word \<Rightarrow> call list" where
  "setup_calls domain =
     [Create_participant (uint domain), Create_publisher, Register_type,
      Create_topic ''ChocolateTemperature'', Create_datawriter, Narrow, Create_data]"

definition setup_outcomes :: "temperature_env \<Rightarrow> (bool \<times> string) list" where
  "setup_outcomes env =
     [(create_participant_result env = None, ''create_participant error''),
      (create_publisher_result env = None, ''create_publisher error''),
      (register_type_result env \<noteq> DDS_RETCODE_OK env, ''register_type error''),
      (create_topic_result env = None, ''create_topic error''),
      (create_datawriter_result env = None, ''create_datawriter error''),
      (narrow_result env = None, ''DataWriter narrow error''),
      (create_data_result env = None, ''TemperatureTypeSupport::create_data error'')]"

definition teardown_calls :: "temperature_env \<Rightarrow> call list" where
  "teardown_calls env =
     (if create_participant_result env = None then []
      else [Delete_contained_entities, Delete_participant])"

definition teardown_errors :: "temperature_env \<Rightarrow> out_item list" where
  "teardown_errors env =
     (if create_participant_result env = None then []
      else (if delete_contained_entities_result env \<noteq> DDS_RETCODE_OK env
            then [Str ''delete_contained_entities error '',
                  Num (delete_contained_entities_result env), Endl]
            else []) @
           (if delete_participant_result env \<noteq> DDS_RETCODE_OK env
            then [Str ''delete_participant error '', Num (delete_participant_result env), Endl]
            else []))"

text \<open>
  One pass through the body of each loop, after the signal (if any) has been delivered, and
  the state after \<open>n\<close> passes in which no signal came.
\<close>

definition temperature_pass :: "temperature_env \<Rightarrow> string \<Rightarrow> nat \<Rightarrow> 32 word \<Rightarrow> world \<Rightarrow> world" where
  "temperature_pass env sensor k count w1 =
     (let sample = \<lparr>sensor_id = take 254 sensor,
                    degrees = int (rand_result env k mod 3) + 30\<rparr>;
          w2 = put_cout [Str ''Writing ChocolateTemperature, count '', Num (uint count), Endl] w1;
          w3 = invoke (Write_Temperature sample) w2;
          retcode = write_result env k;
          w4 = (if retcode \<noteq> DDS_RETCODE_OK env
                then put_cerr [Str ''write error '', Num retcode, Endl] w3 else w3)
      in invoke (Sleep 4) w4)"

fun temperature_passes :: "temperature_env \<Rightarrow> string \<Rightarrow> nat \<Rightarrow> world \<Rightarrow> world" where
  "temperature_passes env sensor 0 w = w"
| "temperature_passes env sensor (Suc n) w =
     temperature_pass env sensor n (of_nat n) (temperature_passes env sensor n w)"

definition hello_pass :: "int \<Rightarrow> world \<Rightarrow> world" where
  "hello_pass count w1 =
     invoke (Sleep 4)
       (invoke Write_HelloMessage
          (put_cout [Str ''Writing HelloMessage, count '', Num count, Endl] w1))"

fun hello_passes :: "nat \<Rightarrow> world \<Rightarrow> world" where
  "hello_passes 0 w = w"
| "hello_passes (Suc n) w = hello_pass ((increment_int ^^ n) 0) (hello_passes n w)"

section \<open>The argument parser\<close>

lemma parse_body_pair:
  assumes "value_flag f" "atoi v = Some n" "arg_processing s = i" "i + 1 < length argv"
    "argv ! i = f" "argv ! (i + 1) = v"
  shows "parse_body argv s = Continue (scan_pair f v s)"
  using assms
  by (auto simp: parse_body_def atoi_arg_def scan_pair_def store_def value_flag_def Let_def touch_def)

lemma parse_loop_pairs:
  assumes "\<forall>(f, v) \<in> set ps. value_flag f \<and> atoi v \<noteq> None"
    and "argv = pre @ flag_tokens ps @ post" and "arg_processing s = length pre"
  shows "parse_loop (length argv) argv s = parse_loop (length argv) argv (scan_pairs ps s)"
  using assms
proof (induction ps arbitrary: pre s)
  case Nil
  then show ?case by simp
next
  case (Cons p ps)
  obtain f v where p: "p = (f, v)" by (cases p)
  from Cons.prems p obtain n where fv: "value_flag f" "atoi v = Some n" by auto
  have argv: "argv = (pre @ [f, v]) @ flag_tokens ps @ post"
    using Cons.prems(2) p by simp
  have body: "parse_body argv s = Continue (scan_pair f v s)"
    using fv Cons.prems(3)
    by (intro parse_body_pair[where n = n and i = "length pre"]) (simp_all add: argv nth_append)
  have pos: "arg_processing (scan_pair f v s) = length (pre @ [f, v])"
    using Cons.prems(3) by (simp add: scan_pair_def store_def touch_def Let_def)
  have "parse_loop (length argv) argv s = parse_loop (length argv) argv (scan_pair f v s)"
    using Cons.prems(3) body by (subst parse_loop.simps) (simp add: argv)
  also have "\<dots> = parse_loop (length argv) argv (scan_pairs ps (scan_pair f v s))"
    using Cons.prems(1) argv pos by (intro Cons.IH) auto
  finally show ?case by (simp add: p)
qed

lemma scan_pairs_snoc: "scan_pairs (ps @ [(f, v)]) s = scan_pair f v (scan_pairs ps s)"
  by (induction ps arbitrary: s) auto

lemma scan_pair_sel:
  "arg_processing (scan_pair f v s) = arg_processing s + 2"
  "printed (scan_pair f v s) = printed s"
  "show_usage (scan_pair f v s) = show_usage s"
  "parse_result (scan_pair f v s) = parse_result s"
  "accessed (scan_pair f v s) = accessed s @ [arg_processing s, arg_processing s + 1]"
  by (simp_all add: scan_pair_def store_def touch_def Let_def)

lemma scan_pairs_sel:
  "arg_processing (scan_pairs ps s) = arg_processing s + 2 * length ps"
  "printed (scan_pairs ps s) = printed s"
  "show_usage (scan_pairs ps s) = show_usage s"
  "parse_result (scan_pairs ps s) = parse_result s"
  by (induction ps arbitrary: s) (auto simp: scan_pair_sel)

lemma scan_pairs_accessed:
  "accessed (scan_pairs ps s) =
     accessed s @ [arg_processing s ..< arg_processing s + 2 * length ps]"
proof (induction ps rule: rev_induct)
  case Nil
  then show ?case by simp
next
  case (snoc p ps)
  obtain f v where p: "p = (f, v)" by (cases p)
  have "[arg_processing s ..< arg_processing s + 2 * length ps + 2] =
        [arg_processing s ..< arg_processing s + 2 * length ps] @
        [arg_processing s + 2 * length ps, arg_processing s + 2 * length ps + 1]"
    by (simp add: upt_rec [of "arg_processing s + 2 * length ps"] upt_add_eq_append [of _ _ 2])
  then show ?case
    using snoc by (simp add: p scan_pairs_snoc scan_pair_sel scan_pairs_sel)
qed

lemma given_snoc:
  "given names (ps @ [(f, v)]) = (if f \<in> set names then Some v else given names ps)"
  by (simp add: given_def)

lemma scan_pair_fields:
  "domain_id (scan_pair f v s) =
     (if f \<in> set [''-d'', ''--domain''] then word_of_int (the (atoi v)) else domain_id s)"
  "value_flag f \<Longrightarrow> sample_count (scan_pair f v s) =
     (if f \<in> set [''-s'', ''--sample-count''] then word_of_int (the (atoi v)) else sample_count s)"
  "value_flag f \<Longrightarrow> verbosity (scan_pair f v s) =
     (if f \<in> set [''-v'', ''--verbosity''] then the (atoi v) else verbosity s)"
  by (auto simp: scan_pair_def store_def touch_def Let_def value_flag_def)

lemma scan_pairs_fields:
  assumes "\<forall>(f, v) \<in> set ps. value_flag f"
  shows "domain_id (scan_pairs ps s) =
           (case given [''-d'', ''--domain''] ps of
              None \<Rightarrow> domain_id s | Some v \<Rightarrow> word_of_int (the (atoi v)))"
    and "sample_count (scan_pairs ps s) =
           (case given [''-s'', ''--sample-count''] ps of
              None \<Rightarrow> sample_count s | Some v \<Rightarrow> word_of_int (the (atoi v)))"
    and "verbosity (scan_pairs ps s) =
           (case given [''-v'', ''--verbosity''] ps of
              None \<Rightarrow> verbosity s | Some v \<Rightarrow> the (atoi v))"
  using assms
proof (induction ps rule: rev_induct)
  case Nil
  { case 1 show ?case by (simp add: given_def) }
  { case 2 show ?case by (simp add: given_def) }
  { case 3 show ?case by (simp add: given_def) }
next
  case (snoc p ps)
  obtain f v where p: "p = (f, v)" by (cases p)
  { case 1 then show ?case
      using snoc(1) by (simp add: p scan_pairs_snoc given_snoc scan_pair_fields) }
  { case 2 then show ?case
      using snoc(2) by (simp add: p scan_pairs_snoc given_snoc scan_pair_fields) }
  { case 3 then show ?case
      using snoc(3) by (simp add: p scan_pairs_snoc given_snoc scan_pair_fields) }
qed

lemma isdigit_not_other: "isdigit c \<Longrightarrow> \<not> isspace c \<and> c \<noteq> CHR ''-'' \<and> c \<noteq> CHR ''+''"
  by (auto simp: isdigit_def isspace_def)

lemma digits_foldl:
  "list_all isdigit s \<Longrightarrow> digits a s = foldl (\<lambda>a c. 10 * a + digit_value c) a s"
  by (induction s arbitrary: a) auto

lemma foldl_digits_nonneg:
  "list_all isdigit s \<Longrightarrow> 0 \<le> a \<Longrightarrow> 0 \<le> foldl (\<lambda>a c. 10 * a + digit_value c) a s"
  by (induction s arbitrary: a) (auto simp: isdigit_def digit_value_def)

lemma decimal_nonneg: "list_all isdigit s \<Longrightarrow> 0 \<le> decimal s"
  by (simp add: decimal_def foldl_digits_nonneg)

lemma atoi_valid_integer:
  assumes "valid_integer v"
  shows "atoi v = Some (decimal v)"
proof -
  from assms obtain c cs where v: "v = c # cs" and d: "isdigit c" "list_all isdigit v"
    and le: "decimal v \<le> INT_MAX"
    by (cases v) (auto simp: valid_integer_def)
  have "dropWhile isspace v = v"
    using v d isdigit_not_other by simp
  moreover have "signed_digits v = digits 0 v"
    using v d isdigit_not_other by (simp add: signed_digits_def)
  moreover have "digits 0 v = decimal v"
    using d by (simp add: digits_foldl decimal_def)
  moreover have "INT_MIN \<le> decimal v"
    using decimal_nonneg [OF d(2)] by (simp add: INT_MIN_def)
  ultimately show ?thesis
    using le by (simp add: atoi_def)
qed

lemma atoi_non_numeric:
  assumes "non_numeric v"
  shows "atoi v = Some 0"
proof -
  have "signed_digits (dropWhile isspace v) = 0"
  proof (cases "dropWhile isspace v")
    case Nil
    then show ?thesis by (simp only: signed_digits_def list.case)
  next
    case (Cons c cs)
    with assms show ?thesis
      by (simp only: signed_digits_def non_numeric_def list.case)
         (auto split: if_splits list.splits)
  qed
  then show ?thesis
    by (simp add: atoi_def INT_MIN_def INT_MAX_def)
qed

lemma length_flag_tokens: "length (flag_tokens ps) = 2 * length ps"
  by (induction ps) auto

lemma parse_loop_prefix:
  assumes "\<forall>(f, v) \<in> set ps. value_flag f \<and> atoi v \<noteq> None"
    and "argv = prog # flag_tokens ps @ post" and "argc = length argv"
  shows "parse_loop argc argv (parse_init E) = parse_loop argc argv (scan_pairs ps (parse_init E))"
proof -
  have "parse_loop (length argv) argv (parse_init E) =
        parse_loop (length argv) argv (scan_pairs ps (parse_init E))"
  proof (rule parse_loop_pairs [where pre = "[prog]" and post = post])
    show "argv = [prog] @ flag_tokens ps @ post" using assms(2) by simp
  qed (use assms(1) in \<open>simp_all add: parse_init_def\<close>)
  then show ?thesis by (simp only: assms(3))
qed

lemma parse_init_sel:
  "arg_processing (parse_init E) = 1" "printed (parse_init E) = []"
  "show_usage (parse_init E) = False" "parse_result (parse_init E) = PARSE_RETURN_OK"
  "accessed (parse_init E) = []" "domain_id (parse_init E) = 0"
  "sample_count (parse_init E) = 0" "verbosity (parse_init E) = E"
  by (simp_all add: parse_init_def)

lemma parse_arguments_pairs:
  assumes "\<forall>(f, v) \<in> set ps. value_flag f \<and> atoi v \<noteq> None"
    and "argv = prog # flag_tokens ps" and "argc = length argv"
  shows "parse_arguments E argc argv =
           (Inr (ApplicationArguments.truncate (scan_pairs ps (parse_init E))),
            scan_pairs ps (parse_init E))"
proof -
  have "argv = prog # flag_tokens ps @ []"
    using assms(2) by simp
  from parse_loop_prefix [OF assms(1) this assms(3)]
  have "parse_loop argc argv (parse_init E) = (None, scan_pairs ps (parse_init E))"
    using assms(2,3)
    by (simp add: parse_loop.simps [of _ _ "scan_pairs ps (parse_init E)"]
          scan_pairs_sel parse_init_sel length_flag_tokens)
  then show ?thesis
    by (simp add: parse_arguments_def print_usage_def scan_pairs_sel parse_init_sel Let_def)
qed

lemma find_mem: "find P xs = Some x \<Longrightarrow> x \<in> set xs"
  by (induction xs) (auto split: if_splits)

lemma given_mem:
  assumes "given names ps = Some v"
  shows "\<exists>f. (f, v) \<in> set ps"
proof -
  from assms obtain p where "find (\<lambda>p. fst p \<in> set names) (rev ps) = Some p" and "snd p = v"
    by (auto simp: given_def)
  then have "(fst p, v) \<in> set ps"
    using find_mem [of _ "rev ps" p] by auto
  then show ?thesis ..
qed

lemma uint_word_of_int_32: "0 \<le> n \<Longrightarrow> n \<le> INT_MAX \<Longrightarrow> uint (word_of_int n :: 32 word) = n"
  by (simp add: INT_MAX_def uint_word_of_int take_bit_int_eq_self)

lemma truncate_sel:
  "parse_result (ApplicationArguments.truncate s) = parse_result s"
  "domain_id (ApplicationArguments.truncate s) = domain_id s"
  "sample_count (ApplicationArguments.truncate s) = sample_count s"
  "verbosity (ApplicationArguments.truncate s) = verbosity s"
  by (simp_all add: ApplicationArguments.truncate_def)

text \<open>
  Claim C1. When the tokens after the program name are value-taking flags, each followed by a
  valid integer token (a non-empty run of decimal digits whose value fits \<^verbatim>\<open>int\<close>),
  \<open>parse_arguments\<close> returns with \<open>PARSE_RETURN_OK\<close>, prints nothing, and each field
  holds the integer given after the last occurrence of its flag, or its default when the flag
  does not occur. \<open>[-d, 5, -s, 10]\<close> gives domain 5, sample count 10 and the default
  verbosity (the instance proved after the theorem).
\<close>

theorem parse_arguments_flag_values:
  assumes "\<forall>(f, v) \<in> set ps. value_flag f \<and> valid_integer v"
  shows "let argv = prog # flag_tokens ps;
             run = parse_arguments E (length argv) argv
         in (case fst run of
               Inl fault \<Rightarrow> False
             | Inr a \<Rightarrow>
                 parse_result a = PARSE_RETURN_OK \<and>
                 uint (domain_id a) = flag_value [''-d'', ''--domain''] 0 ps \<and>
                 uint (sample_count a) = flag_value [''-s'', ''--sample-count''] 0 ps \<and>
                 verbosity a = flag_value [''-v'', ''--verbosity''] E ps) \<and>
            printed (snd run) = []"
proof -
  have ok: "\<forall>(f, v) \<in> set ps. value_flag f \<and> atoi v \<noteq> None"
    using assms by (auto simp: atoi_valid_integer)
  have vf: "\<forall>(f, v) \<in> set ps. value_flag f"
    using assms by auto
  have val: "the (atoi v) = decimal v \<and> 0 \<le> decimal v \<and> decimal v \<le> INT_MAX"
    if "given names ps = Some v" for names v
  proof -
    from given_mem [OF that] assms have "valid_integer v" by auto
    then show ?thesis
      by (simp add: atoi_valid_integer) (simp add: valid_integer_def decimal_nonneg)
  qed
  let ?s = "scan_pairs ps (parse_init E)"
  have "uint (domain_id ?s) = flag_value [''-d'', ''--domain''] 0 ps"
    using val [of "[''-d'', ''--domain'']"]
    by (simp add: scan_pairs_fields(1) [OF vf] flag_value_def parse_init_sel uint_word_of_int_32
          split: option.split)
  moreover have "uint (sample_count ?s) = flag_value [''-s'', ''--sample-count''] 0 ps"
    using val [of "[''-s'', ''--sample-count'']"]
    by (simp add: scan_pairs_fields(2) [OF vf] flag_value_def parse_init_sel uint_word_of_int_32
          split: option.split)
  moreover have "verbosity ?s = flag_value [''-v'', ''--verbosity''] E ps"
    using val [of "[''-v'', ''--verbosity'']"]
    by (simp add: scan_pairs_fields(3) [OF vf] flag_value_def parse_init_sel
          split: option.split)
  ultimately show ?thesis
    unfolding Let_def parse_arguments_pairs [OF ok refl refl]
    by (simp add: truncate_sel scan_pairs_sel parse_init_sel)
qed

theorem parse_arguments_flag_values_witness:
  "value_flag ''-d'' \<and> valid_integer ''5'' \<and> value_flag ''-s'' \<and> valid_integer ''10'' \<and>
   fst (parse_arguments 1 5 [''hello_world_publisher'', ''-d'', ''5'', ''-s'', ''10'']) =
     Inr \<lparr>parse_result = PARSE_RETURN_OK, domain_id = 5, sample_count = 10, verbosity = 1\<rparr> \<and>
   printed (snd (parse_arguments 1 5 [''hello_world_publisher'', ''-d'', ''5'', ''-s'', ''10''])) = []"
proof -
  let ?ps = "[(''-d'', ''5''), (''-s'', ''10'')]"
  let ?run = "parse_arguments 1 5 [''hello_world_publisher'', ''-d'', ''5'', ''-s'', ''10'']"
  have h: "\<forall>(f, v) \<in> set ?ps. value_flag f \<and> valid_integer v"
    by (simp add: value_flag_def valid_integer_def isdigit_def decimal_def digit_value_def
          INT_MAX_def)
  have v: "flag_value [''-d'', ''--domain''] 0 ?ps = 5"
    "flag_value [''-s'', ''--sample-count''] 0 ?ps = 10"
    "flag_value [''-v'', ''--verbosity''] 1 ?ps = 1"
    by (simp_all add: flag_value_def given_def decimal_def digit_value_def)
  have n: "length [''hello_world_publisher'', ''-d'', ''5'', ''-s'', ''10''] = 5"
    by simp
  from parse_arguments_flag_values [OF h, of "''hello_world_publisher''" 1]
  have *: "(case fst ?run of
              Inl fault \<Rightarrow> False
            | Inr a \<Rightarrow> parse_result a = PARSE_RETURN_OK \<and> uint (domain_id a) = 5 \<and>
                uint (sample_count a) = 10 \<and> verbosity a = 1) \<and>
           printed (snd ?run) = []"
    unfolding Let_def v flag_tokens.simps n .
  then obtain a where a: "fst ?run = Inr a" "parse_result a = PARSE_RETURN_OK"
      "uint (domain_id a) = 5" "uint (sample_count a) = 10" "verbosity a = 1"
    by (cases "fst ?run") auto
  from a(3,4) have "domain_id a = 5" "sample_count a = 10"
    by (simp_all add: word_uint_eq_iff)
  with a have "fst ?run =
      Inr \<lparr>parse_result = PARSE_RETURN_OK, domain_id = 5, sample_count = 10, verbosity = 1\<rparr>"
    by (cases a) simp
  with h * show ?thesis by simp
qed

lemma parse_body_help:
  assumes "help_flag t" "arg_processing s = i" "i < length argv" "argv ! i = t"
  shows "parse_body argv s =
           Break ((touch i s)\<lparr>printed := printed s @ [Str ''Example application.'', Endl],
                                 show_usage := True, parse_result := PARSE_RETURN_EXIT\<rparr>)"
  using assms by (auto simp: parse_body_def help_flag_def Let_def touch_def)

lemma parse_body_bad:
  assumes "\<not> value_flag t" "\<not> help_flag t" "arg_processing s = i" "i < length argv"
    "argv ! i = t"
  shows "parse_body argv s =
           Break ((touch i s)\<lparr>printed := printed s @ [Str ''Bad parameter.'', Endl],
                                 show_usage := True, parse_result := PARSE_RETURN_FAILURE\<rparr>)"
  using assms by (auto simp: parse_body_def help_flag_def value_flag_def Let_def touch_def)

lemma parse_arguments_break:
  assumes ok: "\<forall>(f, v) \<in> set ps. value_flag f \<and> atoi v \<noteq> None"
    and argv: "argv = prog # flag_tokens ps @ t # rest" and argc: "argc = length argv"
    and body: "parse_body argv (scan_pairs ps (parse_init E)) =
                 Break ((touch (Suc (2 * length ps)) (scan_pairs ps (parse_init E)))
                   \<lparr>printed := printed (scan_pairs ps (parse_init E)) @ [Str msg, Endl],
                    show_usage := True, parse_result := r\<rparr>)"
  shows "parse_result (snd (parse_arguments E argc argv)) = r"
    and "fst (parse_arguments E argc argv) =
           Inr (ApplicationArguments.truncate (snd (parse_arguments E argc argv)))"
    and "printed (snd (parse_arguments E argc argv)) = [Str msg, Endl, Str usage_text, Endl]"
    and "accessed (snd (parse_arguments E argc argv)) = [1 ..< 2 * length ps + 2]"
proof -
  let ?s = "scan_pairs ps (parse_init E)"
  let ?b = "(touch (Suc (2 * length ps)) ?s)
              \<lparr>printed := printed ?s @ [Str msg, Endl], show_usage := True, parse_result := r\<rparr>"
  have "parse_loop argc argv (parse_init E) = parse_loop argc argv ?s"
    by (rule parse_loop_prefix [OF ok argv argc])
  also have "\<dots> = (None, ?b)"
    using body argv argc
    by (subst parse_loop.simps) (simp add: scan_pairs_sel parse_init_sel length_flag_tokens)
  finally have run: "parse_arguments E argc argv =
      (Inr (ApplicationArguments.truncate (print_usage ?b)), print_usage ?b)"
    by (simp add: parse_arguments_def Let_def)
  show "parse_result (snd (parse_arguments E argc argv)) = r"
    by (simp add: run print_usage_def touch_def)
  show "fst (parse_arguments E argc argv) =
          Inr (ApplicationArguments.truncate (snd (parse_arguments E argc argv)))"
    by (simp add: run)
  show "printed (snd (parse_arguments E argc argv)) = [Str msg, Endl, Str usage_text, Endl]"
    by (simp add: run print_usage_def touch_def scan_pairs_sel parse_init_sel)
  have "[1 ..< 2 * length ps + 2] = [1 ..< Suc (2 * length ps)] @ [Suc (2 * length ps)]"
    by simp
  then show "accessed (snd (parse_arguments E argc argv)) = [1 ..< 2 * length ps + 2]"
    by (simp add: run print_usage_def touch_def scan_pairs_accessed parse_init_sel)
qed

text \<open>
  Claim C2. When the scan reaches, at a flag position, a token that is not a recognized flag,
  \<open>parse_arguments\<close> returns \<open>PARSE_RETURN_FAILURE\<close>, has read no token after that one,
  and has printed \<^verbatim>\<open>Bad parameter.\<close> and the usage message; \<open>hello_main\<close> then exits
  with code 1 and has made no call to the middleware. \<open>[-x]\<close> is the instance proved
  after the theorem.
\<close>

theorem parse_arguments_unrecognized:
  assumes "\<forall>(f, v) \<in> set ps. value_flag f \<and> atoi v \<noteq> None"
    and "\<not> value_flag t" and "\<not> help_flag t"
  shows "let argv = prog # flag_tokens ps @ t # rest;
             run = parse_arguments (Verbosity_EXCEPTION env) (length argv) argv
         in (case fst run of
               Inl fault \<Rightarrow> False
             | Inr a \<Rightarrow> parse_result a = PARSE_RETURN_FAILURE) \<and>
            accessed (snd run) = [1 ..< 2 * length ps + 2] \<and>
            printed (snd run) = [Str ''Bad parameter.'', Endl, Str usage_text, Endl] \<and>
            hello_main env (length argv) argv =
              Some (Inr (1, \<lparr>running = True,
                              cout = [Str ''Bad parameter.'', Endl, Str usage_text, Endl],
                              cerr = [], calls = []\<rparr>))"
proof -
  let ?argv = "prog # flag_tokens ps @ t # rest"
  let ?E = "Verbosity_EXCEPTION env"
  let ?s = "scan_pairs ps (parse_init ?E)"
  have "parse_body ?argv ?s =
          Break ((touch (Suc (2 * length ps)) ?s)
            \<lparr>printed := printed ?s @ [Str ''Bad parameter.'', Endl],
             show_usage := True, parse_result := PARSE_RETURN_FAILURE\<rparr>)"
    by (rule parse_body_bad [OF assms(2,3)])
       (simp_all add: scan_pairs_sel parse_init_sel length_flag_tokens nth_append)
  note run = parse_arguments_break [OF assms(1) refl refl this]
  obtain x s where xs: "parse_arguments ?E (length ?argv) ?argv = (x, s)"
    by (cases "parse_arguments ?E (length ?argv) ?argv")
  with run have x: "x = Inr (ApplicationArguments.truncate s)"
    and s: "parse_result s = PARSE_RETURN_FAILURE"
      "printed s = [Str ''Bad parameter.'', Endl, Str usage_text, Endl]"
      "accessed s = [1 ..< 2 * length ps + 2]"
    by simp_all
  have "hello_main env (length ?argv) ?argv =
          Some (Inr (1, \<lparr>running = True,
                          cout = [Str ''Bad parameter.'', Endl, Str usage_text, Endl],
                          cerr = [], calls = []\<rparr>))"
    unfolding hello_main_def xs
    by (simp add: x s truncate_sel put_cout_def initial_world_def EXIT_FAILURE_def)
  then show ?thesis
    unfolding Let_def xs by (simp add: x s truncate_sel)
qed

theorem parse_arguments_unrecognized_witness:
  "\<not> value_flag ''-x'' \<and> \<not> help_flag ''-x'' \<and>
   fst (parse_arguments 1 2 [''hello_world_publisher'', ''-x'']) =
     Inr \<lparr>parse_result = PARSE_RETURN_FAILURE, domain_id = 0, sample_count = 0, verbosity = 1\<rparr> \<and>
   accessed (snd (parse_arguments 1 2 [''hello_world_publisher'', ''-x''])) = [1] \<and>
   hello_main calm_hello_env 2 [''hello_world_publisher'', ''-x''] =
     Some (Inr (1, \<lparr>running = True,
                     cout = [Str ''Bad parameter.'', Endl, Str usage_text, Endl],
                     cerr = [], calls = []\<rparr>))"
proof -
  have h: "\<not> value_flag ''-x''" "\<not> help_flag ''-x''"
    by (simp_all add: value_flag_def help_flag_def)
  have n: "length [''hello_world_publisher'', ''-x''] = 2" "Verbosity_EXCEPTION calm_hello_env = 1"
    by (simp_all add: calm_hello_env_def)
  from parse_arguments_unrecognized [of "[]" "''-x''" "''hello_world_publisher''" "[]" calm_hello_env]
  have *: "(case fst (parse_arguments 1 2 [''hello_world_publisher'', ''-x'']) of
              Inl fault \<Rightarrow> False
            | Inr a \<Rightarrow> parse_result a = PARSE_RETURN_FAILURE) \<and>
           accessed (snd (parse_arguments 1 2 [''hello_world_publisher'', ''-x''])) = [1] \<and>
           hello_main calm_hello_env 2 [''hello_world_publisher'', ''-x''] =
             Some (Inr (1, \<lparr>running = True,
                             cout = [Str ''Bad parameter.'', Endl, Str usage_text, Endl],
                             cerr = [], calls = []\<rparr>))"
    using h unfolding Let_def flag_tokens.simps append.simps n by simp
  have "fst (parse_arguments 1 2 [''hello_world_publisher'', ''-x'']) =
      Inr \<lparr>parse_result = PARSE_RETURN_FAILURE, domain_id = 0, sample_count = 0, verbosity = 1\<rparr>"
    by code_simp
  with h * show ?thesis by simp
qed

text \<open>
  Claim C3. When the scan reaches \<^verbatim>\<open>-h\<close> or \<^verbatim>\<open>--help\<close> at a flag position,
  \<open>parse_arguments\<close> returns \<open>PARSE_RETURN_EXIT\<close> whatever the tokens after it are,
  has read none of them, and has printed the usage message; \<open>hello_main\<close> then exits with
  code 0.
\<close>

theorem parse_arguments_help:
  assumes "\<forall>(f, v) \<in> set ps. value_flag f \<and> atoi v \<noteq> None"
    and "help_flag t"
  shows "let argv = prog # flag_tokens ps @ t # rest;
             run = parse_arguments (Verbosity_EXCEPTION env) (length argv) argv
         in (case fst run of
               Inl fault \<Rightarrow> False
             | Inr a \<Rightarrow> parse_result a = PARSE_RETURN_EXIT) \<and>
            accessed (snd run) = [1 ..< 2 * length ps + 2] \<and>
            printed (snd run) = [Str ''Example application.'', Endl, Str usage_text, Endl] \<and>
            hello_main env (length argv) argv =
              Some (Inr (0, \<lparr>running = True,
                              cout = [Str ''Example application.'', Endl, Str usage_text, Endl],
                              cerr = [], calls = []\<rparr>))"
proof -
  let ?argv = "prog # flag_tokens ps @ t # rest"
  let ?E = "Verbosity_EXCEPTION env"
  let ?s = "scan_pairs ps (parse_init ?E)"
  have "parse_body ?argv ?s =
          Break ((touch (Suc (2 * length ps)) ?s)
            \<lparr>printed := printed ?s @ [Str ''Example application.'', Endl],
             show_usage := True, parse_result := PARSE_RETURN_EXIT\<rparr>)"
    by (rule parse_body_help [OF assms(2)])
       (simp_all add: scan_pairs_sel parse_init_sel length_flag_tokens nth_append)
  note run = parse_arguments_break [OF assms(1) refl refl this]
  obtain x s where xs: "parse_arguments ?E (length ?argv) ?argv = (x, s)"
    by (cases "parse_arguments ?E (length ?argv) ?argv")
  with run have x: "x = Inr (ApplicationArguments.truncate s)"
    and s: "parse_result s = PARSE_RETURN_EXIT"
      "printed s = [Str ''Example application.'', Endl, Str usage_text, Endl]"
      "accessed s = [1 ..< 2 * length ps + 2]"
    by simp_all
  have "hello_main env (length ?argv) ?argv =
          Some (Inr (0, \<lparr>running = True,
                          cout = [Str ''Example application.'', Endl, Str usage_text, Endl],
                          cerr = [], calls = []\<rparr>))"
    unfolding hello_main_def xs
    by (simp add: x s truncate_sel put_cout_def initial_world_def EXIT_SUCCESS_def)
  then show ?thesis
    unfolding Let_def xs by (simp add: x s truncate_sel)
qed

theorem parse_arguments_help_witness:
  "value_flag ''-d'' \<and> atoi ''5'' = Some 5 \<and> help_flag ''--help'' \<and>
   fst (parse_arguments 1 6 [''hello_world_publisher'', ''-d'', ''5'', ''--help'', ''-x'', ''-s'']) =
     Inr \<lparr>parse_result = PARSE_RETURN_EXIT, domain_id = 5, sample_count = 0, verbosity = 1\<rparr> \<and>
   accessed (snd (parse_arguments 1 6
     [''hello_world_publisher'', ''-d'', ''5'', ''--help'', ''-x'', ''-s''])) = [1, 2, 3] \<and>
   hello_main calm_hello_env 6 [''hello_world_publisher'', ''-d'', ''5'', ''--help'', ''-x'', ''-s''] =
     Some (Inr (0, \<lparr>running = True,
                     cout = [Str ''Example application.'', Endl, Str usage_text, Endl],
                     cerr = [], calls = []\<rparr>))"
proof -
  let ?argv = "[''hello_world_publisher'', ''-d'', ''5'', ''--help'', ''-x'', ''-s'']"
  have h: "value_flag ''-d''" "atoi ''5'' = Some 5" "help_flag ''--help''"
    by (simp_all add: value_flag_def help_flag_def atoi_def signed_digits_def isspace_def
          isdigit_def digit_value_def INT_MIN_def INT_MAX_def)
  have n: "length ?argv = 6" "Verbosity_EXCEPTION calm_hello_env = 1" "[1 ..< 2 * length [(''-d'', ''5'')] + 2] = [1, 2, 3]"
    by (simp_all add: calm_hello_env_def upt_rec)
  from parse_arguments_help [of "[(''-d'', ''5'')]" "''--help''" "''hello_world_publisher''"
      "[''-x'', ''-s'']" calm_hello_env]
  have *: "accessed (snd (parse_arguments 1 6 ?argv)) = [1, 2, 3] \<and>
           hello_main calm_hello_env 6 ?argv =
             Some (Inr (0, \<lparr>running = True,
                             cout = [Str ''Example application.'', Endl, Str usage_text, Endl],
                             cerr = [], calls = []\<rparr>))"
    using h unfolding Let_def flag_tokens.simps append.simps n by simp
  have "fst (parse_arguments 1 6 ?argv) =
      Inr \<lparr>parse_result = PARSE_RETURN_EXIT, domain_id = 5, sample_count = 0, verbosity = 1\<rparr>"
    by code_simp
  with h * show ?thesis by simp
qed

lemma parse_body_accessed:
  assumes "followed argv" "1 \<le> arg_processing s" "arg_processing s < length argv"
  shows "case parse_body argv s of
           Continue s' \<Rightarrow>
             accessed s' = accessed s @ [arg_processing s, arg_processing s + 1] \<and>
             arg_processing s + 1 < length argv \<and> arg_processing s' = arg_processing s + 2
         | Break s' \<Rightarrow> accessed s' = accessed s @ [arg_processing s]
         | Fault f s' \<Rightarrow>
             accessed s' = accessed s @ [arg_processing s, arg_processing s + 1] \<and>
             arg_processing s + 1 < length argv \<and> f = Atoi_range (arg_processing s + 1)"
proof -
  have "value_flag (argv ! arg_processing s) \<Longrightarrow> arg_processing s + 1 < length argv"
    using assms by (simp add: followed_def)
  then show ?thesis
    using assms(3)
    by (auto simp: parse_body_def atoi_arg_def touch_def Let_def value_flag_def
             split: option.splits)
qed

lemma parse_loop_in_range:
  "followed argv \<Longrightarrow> argc = length argv \<Longrightarrow> 1 \<le> arg_processing s \<Longrightarrow>
   set (accessed s) \<subseteq> {1 ..< length argv} \<Longrightarrow>
   set (accessed (snd (parse_loop argc argv s))) \<subseteq> {1 ..< length argv} \<and>
   (\<forall>i. fst (parse_loop argc argv s) \<noteq> Some (Null_argument i))"
proof (induction argc argv s rule: parse_loop.induct)
  case (1 argc argv s)
  show ?case
  proof (cases "arg_processing s < argc")
    case False
    then show ?thesis
      using "1.prems" by (simp add: parse_loop.simps [of _ argv s])
  next
    case True
    then have "arg_processing s < length argv"
      using "1.prems"(2) by simp
    note body = parse_body_accessed [OF "1.prems"(1,3) this]
    show ?thesis
    proof (cases "parse_body argv s")
      case (Continue s')
      with body have s': "accessed s' = accessed s @ [arg_processing s, arg_processing s + 1]"
        "arg_processing s + 1 < length argv" "arg_processing s' = arg_processing s + 2"
        by simp_all
      have "set (accessed (snd (parse_loop argc argv s'))) \<subseteq> {1 ..< length argv} \<and>
            (\<forall>i. fst (parse_loop argc argv s') \<noteq> Some (Null_argument i))"
        using "1.prems" s' by (intro "1.IH" [OF True Continue]) auto
      then show ?thesis
        using True Continue by (simp add: parse_loop.simps [of _ argv s])
    next
      case (Break s')
      with body have "accessed s' = accessed s @ [arg_processing s]" by simp
      then show ?thesis
        using True Break "1.prems" by (simp add: parse_loop.simps [of _ argv s])
    next
      case (Fault f s')
      with body have "accessed s' = accessed s @ [arg_processing s, arg_processing s + 1]"
        "arg_processing s + 1 < length argv" "f = Atoi_range (arg_processing s + 1)"
        by simp_all
      then show ?thesis
        using True Fault "1.prems" by (simp add: parse_loop.simps [of _ argv s])
    qed
  qed
qed

lemma parse_arguments_fst_snd:
  "fst (parse_arguments E argc argv) = Inl f \<longleftrightarrow> fst (parse_loop argc argv (parse_init E)) = Some f"
  "accessed (snd (parse_arguments E argc argv)) =
     accessed (snd (parse_loop argc argv (parse_init E)))"
  by (auto simp: parse_arguments_def print_usage_def Let_def split: prod.splits option.splits)

lemma parse_arguments_trailing_flag:
  assumes ok: "\<forall>(f, v) \<in> set ps. value_flag f \<and> atoi v \<noteq> None"
    and f: "value_flag f"
    and argv: "argv = prog # flag_tokens ps @ [f]" and argc: "argc = length argv"
  shows "parse_arguments E argc argv =
           (Inl (Null_argument argc),
            touch argc (touch (argc - 1) (scan_pairs ps (parse_init E))))"
proof -
  let ?s = "scan_pairs ps (parse_init E)"
  have len: "argc = 2 * length ps + 2"
    using argv argc by (simp add: length_flag_tokens)
  have nth: "argv ! Suc (2 * length ps) = f"
    using argv by (simp add: nth_append length_flag_tokens)
  have body: "parse_body argv ?s = Fault (Null_argument argc) (touch argc (touch (argc - 1) ?s))"
    using f nth len argc
    by (auto simp: parse_body_def atoi_arg_def Let_def value_flag_def scan_pairs_sel parse_init_sel)
  have "parse_loop argc argv (parse_init E) = parse_loop argc argv ?s"
    by (rule parse_loop_prefix [OF ok argv argc])
  also have "\<dots> = (Some (Null_argument argc), touch argc (touch (argc - 1) ?s))"
    by (subst parse_loop.simps) (simp add: body len scan_pairs_sel parse_init_sel)
  finally show ?thesis
    by (simp add: parse_arguments_def)
qed

lemma value_flag_non_numeric: "value_flag h \<Longrightarrow> non_numeric h"
  by (auto simp: value_flag_def non_numeric_def isspace_def isdigit_def)

lemma not_followed_trailing: "value_flag h \<Longrightarrow> \<not> followed (prog # xs @ [h])"
proof
  assume h: "value_flag h" and f: "followed (prog # xs @ [h])"
  have "Suc (length xs) \<in> {1 ..< length (prog # xs @ [h])}"
    by simp
  with f have "value_flag ((prog # xs @ [h]) ! Suc (length xs)) \<longrightarrow>
      Suc (length xs) + 1 < length (prog # xs @ [h])"
    unfolding followed_def by (rule bspec)
  with h show False
    by (simp add: nth_append)
qed

lemma parse_arguments_trailing_pair:
  assumes ok: "\<forall>(f, v) \<in> set ps. value_flag f \<and> atoi v \<noteq> None"
    and g: "value_flag g" and h: "atoi h = Some 0"
    and argv: "argv = prog # flag_tokens ps @ [g, h]"
  shows "parse_arguments E (length argv) argv =
           (Inr (ApplicationArguments.truncate (scan_pairs (ps @ [(g, h)]) (parse_init E))),
            scan_pairs (ps @ [(g, h)]) (parse_init E))"
    and "flag_field g (scan_pairs (ps @ [(g, h)]) (parse_init E)) = 0"
    and "accessed (scan_pairs (ps @ [(g, h)]) (parse_init E)) = [1 ..< length argv]"
proof -
  have tok: "flag_tokens (ps @ [(g, h)]) = flag_tokens ps @ [g, h]"
    by (induction ps) auto
  have ok': "\<forall>(f, v) \<in> set (ps @ [(g, h)]). value_flag f \<and> atoi v \<noteq> None"
    using ok g h by auto
  show "parse_arguments E (length argv) argv =
           (Inr (ApplicationArguments.truncate (scan_pairs (ps @ [(g, h)]) (parse_init E))),
            scan_pairs (ps @ [(g, h)]) (parse_init E))"
    by (rule parse_arguments_pairs [OF ok']) (simp_all add: tok argv)
  show "flag_field g (scan_pairs (ps @ [(g, h)]) (parse_init E)) = 0"
    using g h by (auto simp: flag_field_def scan_pairs_snoc scan_pair_def store_def
        touch_def Let_def value_flag_def)
  show "accessed (scan_pairs (ps @ [(g, h)]) (parse_init E)) = [1 ..< length argv]"
    by (simp add: scan_pairs_accessed parse_init_sel length_flag_tokens argv)
qed

text \<open>
  Claim C6, in the form that holds. If every value-taking flag among the tokens after the
  program name is followed by one more token, \<open>parse_arguments\<close> reads only indices from
  1 to \<open>argc - 1\<close> of \<^verbatim>\<open>argv\<close>. When the scan reaches, at a flag position, a
  value-taking flag that is the last token, it reads index \<open>argc\<close>, one past the tokens.
  When the scan reaches a value-taking flag whose value token is itself a value-taking flag
  and the last token, that precondition fails, yet the last token is consumed as the value
  (it converts to 0), the parse ends with \<open>PARSE_RETURN_OK\<close>, and the indices read are
  exactly 1 to \<open>argc - 1\<close>.
\<close>

theorem parse_arguments_accessed_indices:
  "(followed argv \<longrightarrow>
      (let run = parse_arguments E (length argv) argv
       in set (accessed (snd run)) \<subseteq> {1 ..< length argv} \<and>
          (\<forall>i. fst run \<noteq> Inl (Null_argument i)))) \<and>
   ((\<forall>(f, v) \<in> set ps. value_flag f \<and> atoi v \<noteq> None) \<and> value_flag f \<longrightarrow>
      (let argv' = prog # flag_tokens ps @ [f];
           run = parse_arguments E (length argv') argv'
       in fst run = Inl (Null_argument (length argv')) \<and>
          accessed (snd run) = [1 ..< length argv' + 1])) \<and>
   ((\<forall>(f, v) \<in> set ps. value_flag f \<and> atoi v \<noteq> None) \<and> value_flag g \<and> value_flag h \<longrightarrow>
      (let argv'' = prog # flag_tokens ps @ [g, h];
           run = parse_arguments E (length argv'') argv''
       in \<not> followed argv'' \<and>
          (case fst run of
             Inl fault \<Rightarrow> False
           | Inr a \<Rightarrow> parse_result a = PARSE_RETURN_OK \<and> flag_field g a = 0) \<and>
          accessed (snd run) = [1 ..< length argv'']))"
proof (intro conjI impI)
  assume "followed argv"
  then have "set (accessed (snd (parse_loop (length argv) argv (parse_init E))))
               \<subseteq> {1 ..< length argv} \<and>
             (\<forall>i. fst (parse_loop (length argv) argv (parse_init E)) \<noteq> Some (Null_argument i))"
    by (rule parse_loop_in_range) (simp_all add: parse_init_sel)
  then show "let run = parse_arguments E (length argv) argv
             in set (accessed (snd run)) \<subseteq> {1 ..< length argv} \<and>
                (\<forall>i. fst run \<noteq> Inl (Null_argument i))"
    by (simp add: Let_def parse_arguments_fst_snd)
next
  assume a: "(\<forall>(f, v) \<in> set ps. value_flag f \<and> atoi v \<noteq> None) \<and> value_flag f"
  let ?argv = "prog # flag_tokens ps @ [f]"
  have run: "parse_arguments E (length ?argv) ?argv =
      (Inl (Null_argument (length ?argv)),
       touch (length ?argv) (touch (length ?argv - 1) (scan_pairs ps (parse_init E))))"
    using a by (intro parse_arguments_trailing_flag) simp_all
  have "[1 ..< 2 * length ps + 3] =
        [1 ..< Suc (2 * length ps)] @ [Suc (2 * length ps), Suc (Suc (2 * length ps))]"
    by (simp add: numeral_3_eq_3)
  then show "let argv' = ?argv; run = parse_arguments E (length argv') argv'
             in fst run = Inl (Null_argument (length argv')) \<and>
                accessed (snd run) = [1 ..< length argv' + 1]"
    unfolding Let_def run
    by (simp add: touch_def scan_pairs_accessed parse_init_sel length_flag_tokens)
next
  assume a: "(\<forall>(f, v) \<in> set ps. value_flag f \<and> atoi v \<noteq> None) \<and> value_flag g \<and> value_flag h"
  let ?argv = "prog # flag_tokens ps @ [g, h]"
  let ?s = "scan_pairs (ps @ [(g, h)]) (parse_init E)"
  from a have h0: "atoi h = Some 0"
    by (simp add: atoi_non_numeric value_flag_non_numeric)
  from a have ok: "\<forall>(f, v) \<in> set ps. value_flag f \<and> atoi v \<noteq> None" and g: "value_flag g"
    by simp_all
  note run = parse_arguments_trailing_pair [where E = E, OF ok g h0 refl]
  have "\<not> followed (prog # (flag_tokens ps @ [g]) @ [h])"
    using a by (intro not_followed_trailing) simp
  then have nf: "\<not> followed ?argv" by simp
  have "parse_arguments E (length ?argv) ?argv = (Inr (ApplicationArguments.truncate ?s), ?s)"
    and "flag_field g ?s = 0" and "accessed ?s = [1 ..< length ?argv]"
    by (rule run)+
  moreover have "flag_field g (ApplicationArguments.truncate ?s) = flag_field g ?s"
    by (simp add: flag_field_def truncate_sel)
  ultimately show "let argv'' = ?argv; run = parse_arguments E (length argv'') argv''
       in \<not> followed argv'' \<and>
          (case fst run of
             Inl fault \<Rightarrow> False
           | Inr a \<Rightarrow> parse_result a = PARSE_RETURN_OK \<and> flag_field g a = 0) \<and>
          accessed (snd run) = [1 ..< length argv'']"
    using nf unfolding Let_def
    by (simp add: truncate_sel scan_pairs_sel parse_init_sel del: flag_tokens.simps)
qed

theorem parse_arguments_accessed_indices_witness:
  "followed [''hello_world_publisher'', ''-d'', ''5''] \<and>
   set (accessed (snd (parse_arguments 1 3 [''hello_world_publisher'', ''-d'', ''5'']))) \<subseteq> {1 ..< 3} \<and>
   value_flag ''-d'' \<and> atoi ''5'' = Some 5 \<and> value_flag ''-s'' \<and> value_flag ''-v'' \<and>
   \<not> followed [''hello_world_publisher'', ''-d'', ''5'', ''-s''] \<and>
   fst (parse_arguments 1 4 [''hello_world_publisher'', ''-d'', ''5'', ''-s'']) =
     Inl (Null_argument 4) \<and>
   accessed (snd (parse_arguments 1 4 [''hello_world_publisher'', ''-d'', ''5'', ''-s''])) =
     [1, 2, 3, 4] \<and>
   \<not> followed [''hello_world_publisher'', ''-d'', ''5'', ''-s'', ''-v''] \<and>
   accessed (snd (parse_arguments 1 5 [''hello_world_publisher'', ''-d'', ''5'', ''-s'', ''-v''])) =
     [1, 2, 3, 4]"
proof -
  have f: "followed [''hello_world_publisher'', ''-d'', ''5'']"
    by code_simp
  have h: "value_flag ''-d''" "atoi ''5'' = Some 5" "value_flag ''-s''" "value_flag ''-v''"
    by (simp_all add: value_flag_def atoi_def signed_digits_def isspace_def
          isdigit_def digit_value_def INT_MIN_def INT_MAX_def)
  have n: "length [''hello_world_publisher'', ''-d'', ''5''] = 3"
    "length [''hello_world_publisher'', ''-d'', ''5'', ''-s''] = 4" "[1 ..< 4 + 1] = [1, 2, 3, 4]"
    "length [''hello_world_publisher'', ''-d'', ''5'', ''-s'', ''-v''] = 5"
    "[1 ..< 5] = [1, 2, 3, 4]"
    by (simp_all add: upt_rec)
  note inst = parse_arguments_accessed_indices
      [where argv = "[''hello_world_publisher'', ''-d'', ''5'']"
        and E = 1 and ps = "[(''-d'', ''5'')]" and f = "''-s''" and g = "''-s''" and h = "''-v''"
        and prog = "''hello_world_publisher''"]
  have one: "set (accessed (snd (parse_arguments 1 3 [''hello_world_publisher'', ''-d'', ''5''])))
      \<subseteq> {1 ..< 3}"
    using inst [THEN conjunct1] f unfolding Let_def n by simp
  have two: "fst (parse_arguments 1 4 [''hello_world_publisher'', ''-d'', ''5'', ''-s'']) =
       Inl (Null_argument 4) \<and>
     accessed (snd (parse_arguments 1 4 [''hello_world_publisher'', ''-d'', ''5'', ''-s''])) =
       [1, 2, 3, 4]"
    using inst [THEN conjunct2, THEN conjunct1] h
    unfolding Let_def flag_tokens.simps append.simps n by simp
  have three: "\<not> followed [''hello_world_publisher'', ''-d'', ''5'', ''-s'', ''-v''] \<and>
     accessed (snd (parse_arguments 1 5 [''hello_world_publisher'', ''-d'', ''5'', ''-s'', ''-v''])) =
       [1, 2, 3, 4]"
    using inst [THEN conjunct2, THEN conjunct2] h
    unfolding Let_def flag_tokens.simps append.simps n by simp
  have "\<not> followed [''hello_world_publisher'', ''-d'', ''5'', ''-s'']"
    by code_simp
  with f h one two three show ?thesis by simp
qed

text \<open>
  A value-taking flag as last token does not by itself make the parser read index
  \<open>argc\<close>: in \<open>[-d, -d]\<close> the second \<^verbatim>\<open>-d\<close> is consumed as the value of the first
  (it converts to 0), and only indices 1 and 2 are read.
\<close>

theorem parse_arguments_accessed_indices_counterexample:
  "value_flag (last [''hello_world_publisher'', ''-d'', ''-d'']) \<and>
   \<not> followed [''hello_world_publisher'', ''-d'', ''-d''] \<and>
   parse_arguments 1 3 [''hello_world_publisher'', ''-d'', ''-d''] =
     (Inr \<lparr>parse_result = PARSE_RETURN_OK, domain_id = 0, sample_count = 0, verbosity = 1\<rparr>,
      \<lparr>parse_result = PARSE_RETURN_OK, domain_id = 0, sample_count = 0, verbosity = 1,
       arg_processing = 3, show_usage = False, printed = [], accessed = [1, 2]\<rparr>)"
  by code_simp

text \<open>
  Claim C9. A value-taking flag followed by a token that does not begin with a number (such
  as \<^verbatim>\<open>abc\<close>): the conversion gives 0, the flag's field becomes 0, the scan moves two
  tokens on, and neither the outcome nor the usage flag changes. First for one pass of the
  loop body at any flag position, then for a whole run that ends with such a pair.
\<close>

theorem parse_arguments_non_numeric:
  "(value_flag f \<and> non_numeric v \<and> arg_processing s + 1 < length argv \<and>
    argv ! arg_processing s = f \<and> argv ! (arg_processing s + 1) = v \<longrightarrow>
      (case parse_body argv s of
         Continue s' \<Rightarrow>
           flag_field f s' = 0 \<and> arg_processing s' = arg_processing s + 2 \<and>
           parse_result s' = parse_result s \<and> show_usage s' = show_usage s \<and>
           printed s' = printed s
       | Break s' \<Rightarrow> False
       | Fault e s' \<Rightarrow> False)) \<and>
   ((\<forall>(f, v) \<in> set ps. value_flag f \<and> atoi v \<noteq> None) \<and> value_flag f \<and> non_numeric v \<longrightarrow>
      (let argv' = prog # flag_tokens ps @ [f, v];
           run = parse_arguments E (length argv') argv'
       in (case fst run of
             Inl fault \<Rightarrow> False
           | Inr a \<Rightarrow> parse_result a = PARSE_RETURN_OK \<and> flag_field f a = 0) \<and>
          printed (snd run) = [] \<and>
          accessed (snd run) = [1 ..< length argv']))"
proof (intro conjI impI)
  assume a: "value_flag f \<and> non_numeric v \<and> arg_processing s + 1 < length argv \<and>
    argv ! arg_processing s = f \<and> argv ! (arg_processing s + 1) = v"
  then have "parse_body argv s = Continue (scan_pair f v s)"
    by (intro parse_body_pair [where n = 0 and i = "arg_processing s"])
       (simp_all add: atoi_non_numeric)
  moreover have "flag_field f (scan_pair f v s) = 0"
    using a by (auto simp: flag_field_def scan_pair_def store_def touch_def Let_def
        atoi_non_numeric value_flag_def)
  ultimately show "case parse_body argv s of
         Continue s' \<Rightarrow>
           flag_field f s' = 0 \<and> arg_processing s' = arg_processing s + 2 \<and>
           parse_result s' = parse_result s \<and> show_usage s' = show_usage s \<and>
           printed s' = printed s
       | Break s' \<Rightarrow> False
       | Fault e s' \<Rightarrow> False"
    by (simp add: scan_pair_sel)
next
  assume a: "(\<forall>(f, v) \<in> set ps. value_flag f \<and> atoi v \<noteq> None) \<and> value_flag f \<and> non_numeric v"
  let ?ps = "ps @ [(f, v)]"
  let ?argv = "prog # flag_tokens ps @ [f, v]"
  let ?s = "scan_pairs ?ps (parse_init E)"
  have tok: "flag_tokens ?ps = flag_tokens ps @ [f, v]"
    by (induction ps) auto
  have ok: "\<forall>(f, v) \<in> set ?ps. value_flag f \<and> atoi v \<noteq> None"
    using a by (auto simp: atoi_non_numeric)
  have run: "parse_arguments E (length ?argv) ?argv = (Inr (ApplicationArguments.truncate ?s), ?s)"
    by (rule parse_arguments_pairs [OF ok]) (simp_all add: tok)
  have "flag_field f (ApplicationArguments.truncate ?s) = 0"
    using a by (auto simp: flag_field_def truncate_sel scan_pairs_snoc scan_pair_def store_def
        touch_def Let_def atoi_non_numeric value_flag_def)
  moreover have "accessed ?s = [1 ..< length ?argv]"
    by (simp add: scan_pairs_accessed parse_init_sel length_flag_tokens)
  ultimately show "let argv' = ?argv; run = parse_arguments E (length argv') argv'
       in (case fst run of
             Inl fault \<Rightarrow> False
           | Inr a \<Rightarrow> parse_result a = PARSE_RETURN_OK \<and> flag_field f a = 0) \<and>
          printed (snd run) = [] \<and>
          accessed (snd run) = [1 ..< length argv']"
    unfolding Let_def run by (simp add: truncate_sel scan_pairs_sel parse_init_sel)
qed

theorem parse_arguments_non_numeric_witness:
  "value_flag ''-d'' \<and> non_numeric ''abc'' \<and>
   parse_arguments 1 3 [''hello_world_publisher'', ''-d'', ''abc''] =
     (Inr \<lparr>parse_result = PARSE_RETURN_OK, domain_id = 0, sample_count = 0, verbosity = 1\<rparr>,
      \<lparr>parse_result = PARSE_RETURN_OK, domain_id = 0, sample_count = 0, verbosity = 1,
       arg_processing = 3, show_usage = False, printed = [], accessed = [1, 2]\<rparr>) \<and>
   (case fst (parse_arguments 1 3 [''hello_world_publisher'', ''-d'', ''abc'']) of
      Inl fault \<Rightarrow> False
    | Inr a \<Rightarrow> parse_result a = PARSE_RETURN_OK \<and> flag_field ''-d'' a = 0)"
proof -
  have h: "value_flag ''-d''" "non_numeric ''abc''"
    by (simp_all add: value_flag_def non_numeric_def isdigit_def isspace_def)
  have n: "length [''hello_world_publisher'', ''-d'', ''abc''] = 3"
    by simp
  have "parse_arguments 1 3 [''hello_world_publisher'', ''-d'', ''abc''] =
     (Inr \<lparr>parse_result = PARSE_RETURN_OK, domain_id = 0, sample_count = 0, verbosity = 1\<rparr>,
      \<lparr>parse_result = PARSE_RETURN_OK, domain_id = 0, sample_count = 0, verbosity = 1,
       arg_processing = 3, show_usage = False, printed = [], accessed = [1, 2]\<rparr>)"
    by code_simp
  moreover from parse_arguments_non_numeric [where ps = "[]" and f = "''-d''" and v = "''abc''"
      and prog = "''hello_world_publisher''" and E = 1, THEN conjunct2]
  have "case fst (parse_arguments 1 3 [''hello_world_publisher'', ''-d'', ''abc'']) of
      Inl fault \<Rightarrow> False
    | Inr a \<Rightarrow> parse_result a = PARSE_RETURN_OK \<and> flag_field ''-d'' a = 0"
    using h unfolding Let_def flag_tokens.simps append.simps n by simp
  ultimately show ?thesis using h by simp
qed

text \<open>
  Claim C10. With no token after the program name, \<open>parse_arguments\<close> returns domain 0,
  sample count 0, the verbosity \<^verbatim>\<open>EXCEPTION\<close> and \<open>PARSE_RETURN_OK\<close>, and prints
  nothing.
\<close>

theorem parse_arguments_defaults:
  "fst (parse_arguments E 1 [prog]) =
     Inr \<lparr>parse_result = PARSE_RETURN_OK, domain_id = 0, sample_count = 0, verbosity = E\<rparr> \<and>
   printed (snd (parse_arguments E 1 [prog])) = [] \<and>
   accessed (snd (parse_arguments E 1 [prog])) = []"
  by (simp add: parse_arguments_def parse_loop.simps parse_init_def print_usage_def
        ApplicationArguments.truncate_def)

theorem parse_arguments_defaults_witness:
  "fst (parse_arguments 1 1 [''hello_world_publisher'']) =
     Inr \<lparr>parse_result = PARSE_RETURN_OK, domain_id = 0, sample_count = 0, verbosity = 1\<rparr> \<and>
   printed (snd (parse_arguments 1 1 [''hello_world_publisher''])) = []"
  using parse_arguments_defaults [of 1 "''hello_world_publisher''"] by simp

section \<open>The run loops and the teardown\<close>

lemma temperature_loop_step:
  "temperature_loop env limit sensor k count w =
     (if running (deliver env k w) \<and> (limit = 0 \<or> count < limit)
      then temperature_loop env limit sensor (Suc k) (count + 1)
             (temperature_pass env sensor k count (deliver env k w))
      else Some (deliver env k w))"
  by (auto simp: temperature_loop.simps [of env limit sensor k count w] Let_def
        temperature_pass_def)

lemma temperature_pass_sel:
  "running (temperature_pass env sensor k count w) = running w"
  "calls (temperature_pass env sensor k count w) =
     calls w @ [Write_Temperature \<lparr>sensor_id = take 254 sensor,
                                    degrees = int (rand_result env k mod 3) + 30\<rparr>, Sleep 4]"
  "cout (temperature_pass env sensor k count w) =
     cout w @ [Str ''Writing ChocolateTemperature, count '', Num (uint count), Endl]"
  "cerr (temperature_pass env sensor k count w) =
     cerr w @ (if write_result env k \<noteq> DDS_RETCODE_OK env
               then [Str ''write error '', Num (write_result env k), Endl] else [])"
  by (simp_all add: temperature_pass_def Let_def put_cout_def put_cerr_def invoke_def)

lemma temperature_passes_sel:
  "running (temperature_passes env sensor n w) = running w"
  "calls (temperature_passes env sensor n w) =
     calls w @ concat (map (\<lambda>j. [Write_Temperature \<lparr>sensor_id = take 254 sensor,
                                     degrees = int (rand_result env j mod 3) + 30\<rparr>, Sleep 4])
                         [0 ..< n])"
  "cout (temperature_passes env sensor n w) =
     cout w @ concat (map (\<lambda>j. [Str ''Writing ChocolateTemperature, count '',
                                  Num (uint (of_nat j :: 32 word)), Endl]) [0 ..< n])"
  "cerr (temperature_passes env sensor n w) =
     cerr w @ concat (map (\<lambda>j. if write_result env j \<noteq> DDS_RETCODE_OK env
                                 then [Str ''write error '', Num (write_result env j), Endl]
                                 else []) [0 ..< n])"
  by (induction n) (simp_all add: temperature_pass_sel)

lemma deliver_sel:
  "running (deliver env k w) = (running w \<and> \<not> signals env k)"
  "calls (deliver env k w) = calls w"
  "cerr (deliver env k w) = cerr w"
  "cout (deliver env k w) =
     cout w @ (if signals env k then [Str ''preparing to shut down...'', Endl] else [])"
  by (simp_all add: deliver_def stop_handler_def put_cout_def)

lemma of_nat_less_word: "n < unat (x :: 32 word) \<Longrightarrow> of_nat n < x"
  by (simp add: word_less_nat_alt unat_of_nat le_less_trans [OF mod_less_eq_dividend])

lemma temperature_loop_passes:
  assumes "running w" and "\<forall>j<n. \<not> signals env j" and "limit = 0 \<or> n \<le> unat limit"
  shows "temperature_loop env limit sensor 0 0 w =
         temperature_loop env limit sensor n (of_nat n) (temperature_passes env sensor n w)"
  using assms
proof (induction n)
  case 0
  then show ?case by simp
next
  case (Suc n)
  have quiet: "deliver env n (temperature_passes env sensor n w) = temperature_passes env sensor n w"
    using Suc.prems by (simp add: deliver_def)
  have cond: "limit = 0 \<or> (of_nat n :: 32 word) < limit"
    using Suc.prems(3) by (auto intro: of_nat_less_word)
  have "temperature_loop env limit sensor 0 0 w =
        temperature_loop env limit sensor n (of_nat n) (temperature_passes env sensor n w)"
    by (rule Suc.IH) (use Suc.prems in auto)
  also have "\<dots> = temperature_loop env limit sensor (Suc n) (of_nat n + 1)
                     (temperature_passes env sensor (Suc n) w)"
    using cond Suc.prems(1)
    by (subst temperature_loop_step) (simp add: quiet temperature_passes_sel)
  finally show ?case by (simp add: add.commute)
qed

lemma temperature_loop_limit:
  assumes "limit \<noteq> 0" and "running w" and "\<forall>j<unat limit. \<not> signals env j"
  shows "temperature_loop env limit sensor 0 0 w =
         Some (deliver env (unat limit) (temperature_passes env sensor (unat limit) w))"
proof -
  have "temperature_loop env limit sensor 0 0 w =
        temperature_loop env limit sensor (unat limit) (of_nat (unat limit))
          (temperature_passes env sensor (unat limit) w)"
    using assms by (intro temperature_loop_passes) simp_all
  also have "\<dots> = Some (deliver env (unat limit) (temperature_passes env sensor (unat limit) w))"
    using assms(1) by (subst temperature_loop_step) simp
  finally show ?thesis .
qed

lemma temperature_loop_signal:
  assumes "running w" and "\<forall>j<m. \<not> signals env j" and "signals env m"
    and "limit = 0 \<or> m \<le> unat limit"
  shows "temperature_loop env limit sensor 0 0 w =
         Some (stop_handler (temperature_passes env sensor m w))"
proof -
  have "temperature_loop env limit sensor 0 0 w =
        temperature_loop env limit sensor m (of_nat m) (temperature_passes env sensor m w)"
    using assms by (intro temperature_loop_passes) simp_all
  also have "\<dots> = Some (stop_handler (temperature_passes env sensor m w))"
    using assms(3) by (subst temperature_loop_step) (simp add: deliver_sel, simp add: deliver_def)
  finally show ?thesis .
qed

lemma temperature_loop_unbounded:
  assumes "temperature_loop env limit sensor k count w = Some w'"
  shows "limit = 0 \<longrightarrow> running w \<longrightarrow> (\<exists>j\<ge>k. signals env j)"
proof (rule temperature_loop.raw_induct
        [where P = "\<lambda>env limit sensor k count w w'.
           limit = 0 \<longrightarrow> running w \<longrightarrow> (\<exists>j\<ge>k. signals env j)", OF _ assms], goal_cases)
  case (1 f env limit sensor k count w y)
  show ?case
  proof (intro impI, rule ccontr)
    assume a: "limit = 0" "running w" "\<not> (\<exists>j\<ge>k. signals env j)"
    then have d: "deliver env k w = w"
      by (simp add: deliver_def)
    from 1(2) a d
    have "f env limit sensor (Suc k) (count + 1) (temperature_pass env sensor k count w) = Some y"
      by (simp add: Let_def temperature_pass_def)
    from 1(1) [OF this] a obtain j where "Suc k \<le> j" "signals env j"
      by (auto simp: temperature_pass_sel)
    with a(3) show False
      by (auto dest: Suc_leD)
  qed
qed

lemma temperature_loop_ends_stopped:
  assumes "temperature_loop env limit sensor k count w = Some w'"
  shows "limit = 0 \<longrightarrow> \<not> running w'"
  by (rule temperature_loop.raw_induct
        [where P = "\<lambda>env limit sensor k count w w'. limit = 0 \<longrightarrow> \<not> running w'", OF _ assms])
     (auto simp: Let_def split: if_splits)

lemma temperature_loop_running:
  assumes "temperature_loop env limit sensor k count w = Some w'"
  shows "\<not> running w \<longrightarrow> \<not> running w'"
  by (rule temperature_loop.raw_induct
        [where P = "\<lambda>env limit sensor k count w w'. \<not> running w \<longrightarrow> \<not> running w'", OF _ assms])
     (auto simp: Let_def deliver_def stop_handler_def put_cout_def split: if_splits)

lemma hello_loop_step:
  "hello_loop env limit k count w =
     (if running (deliver env k w) \<and> (count < limit \<or> limit = 0) then
        if write_throws env k then
          Some (Thrown (invoke Write_HelloMessage
            (put_cout [Str ''Writing HelloMessage, count '', Num count, Endl] (deliver env k w))))
        else hello_loop env limit (Suc k) (increment_int count)
               (hello_pass count (deliver env k w))
      else Some (Returned (deliver env k w)))"
  by (auto simp: hello_loop.simps [of env limit k count w] Let_def hello_pass_def)

lemma hello_pass_sel:
  "running (hello_pass count w) = running w"
  "calls (hello_pass count w) = calls w @ [Write_HelloMessage, Sleep 4]"
  "cout (hello_pass count w) = cout w @ [Str ''Writing HelloMessage, count '', Num count, Endl]"
  "cerr (hello_pass count w) = cerr w"
  by (simp_all add: hello_pass_def put_cout_def invoke_def)

lemma hello_passes_sel:
  "running (hello_passes n w) = running w"
  "calls (hello_passes n w) =
     calls w @ concat (map (\<lambda>j. [Write_HelloMessage, Sleep 4]) [0 ..< n])"
  "cout (hello_passes n w) =
     cout w @ concat (map (\<lambda>j. [Str ''Writing HelloMessage, count '',
                                  Num ((increment_int ^^ j) 0), Endl]) [0 ..< n])"
  "cerr (hello_passes n w) = cerr w"
  by (induction n) (simp_all add: hello_pass_sel)

lemma increment_int_count: "int n \<le> INT_MAX \<Longrightarrow> (increment_int ^^ n) 0 = int n"
proof (induction n)
  case 0
  then show ?case by simp
next
  case (Suc n)
  then have "signed_take_bit 31 (int n + 1) = int n + 1"
    by (intro signed_take_bit_int_eq_self) (simp_all add: INT_MAX_def)
  with Suc show ?case
    by (simp add: increment_int_def)
qed

lemma hello_loop_passes:
  assumes "running w" and "\<forall>j<n. \<not> signals env j \<and> \<not> write_throws env j"
    and "limit = 0 \<or> (int n \<le> limit \<and> limit \<le> INT_MAX)"
  shows "hello_loop env limit 0 0 w =
         hello_loop env limit n ((increment_int ^^ n) 0) (hello_passes n w)"
  using assms
proof (induction n)
  case 0
  then show ?case by simp
next
  case (Suc n)
  have quiet: "deliver env n (hello_passes n w) = hello_passes n w" "\<not> write_throws env n"
    using Suc.prems by (simp_all add: deliver_def)
  have cond: "(increment_int ^^ n) 0 < limit \<or> limit = 0"
    using Suc.prems(3) by (auto simp: increment_int_count)
  have "hello_loop env limit 0 0 w =
        hello_loop env limit n ((increment_int ^^ n) 0) (hello_passes n w)"
    by (rule Suc.IH) (use Suc.prems in auto)
  also have "\<dots> = hello_loop env limit (Suc n) (increment_int ((increment_int ^^ n) 0))
                     (hello_passes (Suc n) w)"
    using cond Suc.prems(1)
    by (subst hello_loop_step) (simp add: quiet hello_passes_sel)
  finally show ?case by simp
qed

lemma hello_loop_limit:
  assumes "0 < limit" and "limit \<le> INT_MAX" and "running w"
    and "\<forall>j<nat limit. \<not> signals env j \<and> \<not> write_throws env j"
  shows "hello_loop env limit 0 0 w =
         Some (Returned (deliver env (nat limit) (hello_passes (nat limit) w)))"
proof -
  have n: "(increment_int ^^ nat limit) 0 = limit"
    using assms(1,2) by (simp add: increment_int_count)
  have "hello_loop env limit 0 0 w =
        hello_loop env limit (nat limit) ((increment_int ^^ nat limit) 0)
          (hello_passes (nat limit) w)"
    using assms by (intro hello_loop_passes) simp_all
  also have "\<dots> = Some (Returned (deliver env (nat limit) (hello_passes (nat limit) w)))"
    using assms(1) by (subst hello_loop_step) (simp add: n)
  finally show ?thesis .
qed

lemma hello_loop_signal:
  assumes "running w" and "\<forall>j<m. \<not> signals env j \<and> \<not> write_throws env j" and "signals env m"
    and "limit = 0 \<or> (int m \<le> limit \<and> limit \<le> INT_MAX)"
  shows "hello_loop env limit 0 0 w = Some (Returned (stop_handler (hello_passes m w)))"
proof -
  have "hello_loop env limit 0 0 w =
        hello_loop env limit m ((increment_int ^^ m) 0) (hello_passes m w)"
    using assms by (intro hello_loop_passes) simp_all
  also have "\<dots> = Some (Returned (stop_handler (hello_passes m w)))"
    using assms(3) by (subst hello_loop_step) (simp add: deliver_sel, simp add: deliver_def)
  finally show ?thesis .
qed

lemma hello_loop_unbounded:
  assumes "hello_loop env limit k count w = Some r"
  shows "limit = 0 \<longrightarrow> running w \<longrightarrow> (\<exists>j\<ge>k. signals env j \<or> write_throws env j)"
proof (rule hello_loop.raw_induct
        [where P = "\<lambda>env limit k count w r.
           limit = 0 \<longrightarrow> running w \<longrightarrow> (\<exists>j\<ge>k. signals env j \<or> write_throws env j)",
         OF _ assms], goal_cases)
  case (1 f env limit k count w y)
  show ?case
  proof (intro impI, rule ccontr)
    assume a: "limit = 0" "running w" "\<not> (\<exists>j\<ge>k. signals env j \<or> write_throws env j)"
    then have d: "deliver env k w = w" "\<not> write_throws env k"
      by (simp_all add: deliver_def)
    from 1(2) a d
    have "f env limit (Suc k) (increment_int count) (hello_pass count w) = Some y"
      by (simp add: Let_def hello_pass_def)
    from 1(1) [OF this] a obtain j where "Suc k \<le> j" "signals env j \<or> write_throws env j"
      by (auto simp: hello_pass_sel)
    with a(3) show False
      by (auto dest: Suc_leD)
  qed
qed

lemma hello_loop_ends_stopped:
  assumes "hello_loop env limit k count w = Some r"
  shows "limit = 0 \<longrightarrow> (\<forall>w'. r = Returned w' \<longrightarrow> \<not> running w')"
  by (rule hello_loop.raw_induct
        [where P = "\<lambda>env limit k count w r.
           limit = 0 \<longrightarrow> (\<forall>w'. r = Returned w' \<longrightarrow> \<not> running w')", OF _ assms])
     (auto simp: Let_def split: if_splits)

lemma uint_of_nat_count: "j < unat (x :: 32 word) \<Longrightarrow> uint (of_nat j :: 32 word) = int j"
proof -
  assume "j < unat x"
  moreover have "unat x < 2 ^ 32"
    using unsigned_less [of x, where ?'a = nat] by simp
  ultimately have "j mod 2 ^ 32 = j" by simp
  then show ?thesis
    by (simp add: uint_nat unat_of_nat)
qed

lemma hello_loop_thrown:
  assumes "hello_loop env limit k count w = Some r"
  shows "\<forall>w'. r = Thrown w' \<longrightarrow> (\<exists>j\<ge>k. write_throws env j)"
proof (rule hello_loop.raw_induct
        [where P = "\<lambda>env limit k count w r.
           \<forall>w'. r = Thrown w' \<longrightarrow> (\<exists>j\<ge>k. write_throws env j)", OF _ assms], goal_cases)
  case (1 f env limit k count w y)
  show ?case
  proof (intro allI impI)
    fix w' assume y: "y = Thrown w'"
    show "\<exists>j\<ge>k. write_throws env j"
    proof (cases "write_throws env k")
      case True
      then show ?thesis by auto
    next
      case False
      with 1(2) y
      have "f env limit (Suc k) (increment_int count) (hello_pass count (deliver env k w)) = Some y"
        by (simp add: Let_def hello_pass_def split: if_splits)
      from 1(1) [OF this] y obtain j where "Suc k \<le> j" "write_throws env j"
        by auto
      then show ?thesis
        by (auto dest: Suc_leD)
    qed
  qed
qed

lemma hello_loop_throw:
  assumes "running w" and "\<forall>j<m. \<not> signals env j \<and> \<not> write_throws env j"
    and "\<not> signals env m" and "write_throws env m"
    and "limit = 0 \<or> (int m < limit \<and> limit \<le> INT_MAX)"
  shows "hello_loop env limit 0 0 w =
         Some (Thrown (invoke Write_HelloMessage
           (put_cout [Str ''Writing HelloMessage, count '', Num ((increment_int ^^ m) 0), Endl]
              (hello_passes m w))))"
proof -
  have quiet: "deliver env m (hello_passes m w) = hello_passes m w"
    using assms(3) by (simp add: deliver_def)
  have cond: "(increment_int ^^ m) 0 < limit \<or> limit = 0"
    using assms(5) by (auto simp: increment_int_count)
  have "hello_loop env limit 0 0 w =
        hello_loop env limit m ((increment_int ^^ m) 0) (hello_passes m w)"
    by (rule hello_loop_passes) (use assms in auto)
  also have "\<dots> = Some (Thrown (invoke Write_HelloMessage
           (put_cout [Str ''Writing HelloMessage, count '', Num ((increment_int ^^ m) 0), Endl]
              (hello_passes m w))))"
    using cond assms(1,4)
    by (subst hello_loop_step) (simp add: quiet hello_passes_sel)
  finally show ?thesis .
qed

text \<open>
  Claim C4, in the form that holds. In the temperature publisher: with a sample count above
  0 and no signal before the loop has made that many passes, the loop makes exactly that
  many passes (one \<^verbatim>\<open>write\<close> each, with counts 0 to sample count - 1 printed) and
  returns; with sample count 0 it never returns while no signal comes, it returns only with
  the flag false, and it returns after \<open>m\<close> passes when the first signal comes before the
  test number \<open>m\<close>. In the hello world publisher the same holds as long as no
  \<^verbatim>\<open>write\<close> throws; the loop is left by an exception only when a \<^verbatim>\<open>write\<close> throws,
  and the first \<^verbatim>\<open>write\<close> that throws, in pass \<open>m\<close>, ends it there with the flag as it
  was, after \<open>m\<close> whole passes and that one \<^verbatim>\<open>write\<close>.
\<close>

theorem run_loop_sample_count:
  fixes env :: temperature_env and henv :: hello_env
  shows
  "(limit \<noteq> 0 \<and> running w \<and> (\<forall>j<unat limit. \<not> signals env j) \<longrightarrow>
      (\<exists>w'. temperature_loop env limit sensor 0 0 w = Some w' \<and>
         calls w' = calls w @ concat (map (\<lambda>j.
           [Write_Temperature \<lparr>sensor_id = take 254 sensor,
                                degrees = int (rand_result env j mod 3) + 30\<rparr>, Sleep 4])
           [0 ..< unat limit]) \<and>
         cout w' = cout w @ concat (map (\<lambda>j.
           [Str ''Writing ChocolateTemperature, count '', Num (int j), Endl]) [0 ..< unat limit]) @
           (if signals env (unat limit) then [Str ''preparing to shut down...'', Endl] else []))) \<and>
   (running w \<and> (\<forall>j\<ge>k. \<not> signals env j) \<longrightarrow>
      temperature_loop env 0 sensor k count w = None) \<and>
   (temperature_loop env 0 sensor k count w = Some w1 \<longrightarrow> \<not> running w1) \<and>
   (running w \<and> signals env m \<and> (\<forall>j<m. \<not> signals env j) \<longrightarrow>
      (\<exists>w'. temperature_loop env 0 sensor 0 0 w = Some w' \<and> \<not> running w' \<and>
         calls w' = calls w @ concat (map (\<lambda>j.
           [Write_Temperature \<lparr>sensor_id = take 254 sensor,
                                degrees = int (rand_result env j mod 3) + 30\<rparr>, Sleep 4])
           [0 ..< m]))) \<and>
   (0 < hlimit \<and> hlimit \<le> INT_MAX \<and> running w \<and>
    (\<forall>j<nat hlimit. \<not> signals henv j \<and> \<not> write_throws henv j) \<longrightarrow>
      (\<exists>w'. hello_loop henv hlimit 0 0 w = Some (Returned w') \<and>
         calls w' = calls w @ concat (map (\<lambda>j. [Write_HelloMessage, Sleep 4]) [0 ..< nat hlimit]) \<and>
         cout w' = cout w @ concat (map (\<lambda>j.
           [Str ''Writing HelloMessage, count '', Num (int j), Endl]) [0 ..< nat hlimit]) @
           (if signals henv (nat hlimit) then [Str ''preparing to shut down...'', Endl] else []))) \<and>
   (running w \<and> (\<forall>j\<ge>k. \<not> signals henv j \<and> \<not> write_throws henv j) \<longrightarrow>
      hello_loop henv 0 k hcount w = None) \<and>
   (hello_loop henv 0 k hcount w = Some (Returned w2) \<longrightarrow> \<not> running w2) \<and>
   (running w \<and> signals henv m \<and> (\<forall>j<m. \<not> signals henv j \<and> \<not> write_throws henv j) \<longrightarrow>
      (\<exists>w'. hello_loop henv 0 0 0 w = Some (Returned w') \<and> \<not> running w' \<and>
         calls w' = calls w @ concat (map (\<lambda>j. [Write_HelloMessage, Sleep 4]) [0 ..< m]))) \<and>
   (hello_loop henv hlimit k hcount w = Some (Thrown w3) \<longrightarrow> (\<exists>j\<ge>k. write_throws henv j)) \<and>
   (running w \<and> write_throws henv m \<and> \<not> signals henv m \<and>
    (\<forall>j<m. \<not> signals henv j \<and> \<not> write_throws henv j) \<and>
    (hlimit = 0 \<or> (int m < hlimit \<and> hlimit \<le> INT_MAX)) \<longrightarrow>
      (\<exists>w'. hello_loop henv hlimit 0 0 w = Some (Thrown w') \<and> running w' \<and>
         calls w' = calls w @ concat (map (\<lambda>j. [Write_HelloMessage, Sleep 4]) [0 ..< m]) @
           [Write_HelloMessage]))"
proof (intro conjI impI, goal_cases)
  case 1
  then have run: "temperature_loop env limit sensor 0 0 w =
      Some (deliver env (unat limit) (temperature_passes env sensor (unat limit) w))"
    by (intro temperature_loop_limit) simp_all
  have eq: "map (\<lambda>j. [Str ''Writing ChocolateTemperature, count '',
                    Num (uint (of_nat j :: 32 word)), Endl]) [0 ..< unat limit] =
        map (\<lambda>j. [Str ''Writing ChocolateTemperature, count '', Num (int j), Endl])
          [0 ..< unat limit]"
    by (rule map_cong) (simp_all add: uint_of_nat_count)
  show ?case
    unfolding run by (simp add: deliver_sel temperature_passes_sel) (simp only: eq)
next
  case 2
  show ?case
  proof (cases "temperature_loop env 0 sensor k count w")
    case (Some w')
    from temperature_loop_unbounded [OF this] 2 show ?thesis by auto
  qed simp
next
  case 3
  from temperature_loop_ends_stopped [OF this] show ?case by simp
next
  case 4
  then have "temperature_loop env 0 sensor 0 0 w =
      Some (stop_handler (temperature_passes env sensor m w))"
    by (intro temperature_loop_signal) simp_all
  then show ?case
    by (simp add: stop_handler_def put_cout_def temperature_passes_sel)
next
  case 5
  then have run: "hello_loop henv hlimit 0 0 w =
      Some (Returned (deliver henv (nat hlimit) (hello_passes (nat hlimit) w)))"
    by (intro hello_loop_limit) simp_all
  have eq: "map (\<lambda>j. [Str ''Writing HelloMessage, count '', Num ((increment_int ^^ j) 0), Endl])
          [0 ..< nat hlimit] =
        map (\<lambda>j. [Str ''Writing HelloMessage, count '', Num (int j), Endl]) [0 ..< nat hlimit]"
    using 5 by (intro map_cong) (auto intro!: increment_int_count)
  show ?case
    unfolding run by (simp add: deliver_sel hello_passes_sel) (simp only: eq)
next
  case 6
  show ?case
  proof (cases "hello_loop henv 0 k hcount w")
    case (Some r)
    from hello_loop_unbounded [OF this] 6 show ?thesis by auto
  qed simp
next
  case 7
  from hello_loop_ends_stopped [OF this] show ?case by simp
next
  case 8
  then have "hello_loop henv 0 0 0 w = Some (Returned (stop_handler (hello_passes m w)))"
    by (intro hello_loop_signal) simp_all
  then show ?case
    by (simp add: stop_handler_def put_cout_def hello_passes_sel)
next
  case 9
  from hello_loop_thrown [OF this] show ?case by simp
next
  case 10
  then have "hello_loop henv hlimit 0 0 w =
      Some (Thrown (invoke Write_HelloMessage
        (put_cout [Str ''Writing HelloMessage, count '', Num ((increment_int ^^ m) 0), Endl]
           (hello_passes m w))))"
    by (intro hello_loop_throw) simp_all
  then show ?case
    using 10 by (simp add: invoke_def put_cout_def hello_passes_sel)
qed

theorem run_loop_sample_count_witness:
  "temperature_loop calm_temperature_env 2 ''s1'' 0 0 initial_world =
     Some \<lparr>running = True,
           cout = [Str ''Writing ChocolateTemperature, count '', Num 0, Endl,
                   Str ''Writing ChocolateTemperature, count '', Num 1, Endl],
           cerr = [],
           calls = [Write_Temperature \<lparr>sensor_id = ''s1'', degrees = 31\<rparr>, Sleep 4,
                    Write_Temperature \<lparr>sensor_id = ''s1'', degrees = 31\<rparr>, Sleep 4]\<rparr> \<and>
   temperature_loop calm_temperature_env 0 ''s1'' 0 0 initial_world = None \<and>
   hello_loop calm_hello_env 2 0 0 initial_world =
     Some (Returned \<lparr>running = True,
           cout = [Str ''Writing HelloMessage, count '', Num 0, Endl,
                   Str ''Writing HelloMessage, count '', Num 1, Endl],
           cerr = [],
           calls = [Write_HelloMessage, Sleep 4, Write_HelloMessage, Sleep 4]\<rparr>) \<and>
   hello_loop calm_hello_env 0 0 0 initial_world = None"
proof -
  have quiet: "running initial_world" "\<forall>j\<ge>0. \<not> signals calm_temperature_env j"
    "\<forall>j\<ge>0. \<not> signals calm_hello_env j \<and> \<not> write_throws calm_hello_env j"
    by (simp_all add: initial_world_def calm_temperature_env_def calm_hello_env_def)
  note inst = run_loop_sample_count [where env = calm_temperature_env and henv = calm_hello_env
      and w = initial_world and k = 0 and count = 0 and hcount = 0 and sensor = "''s1''"]
  have "temperature_loop calm_temperature_env 0 ''s1'' 0 0 initial_world = None"
    using inst quiet by blast
  moreover have "hello_loop calm_hello_env 0 0 0 initial_world = None"
    using inst quiet by blast
  moreover have "temperature_loop calm_temperature_env 2 ''s1'' 0 0 initial_world =
     Some \<lparr>running = True,
           cout = [Str ''Writing ChocolateTemperature, count '', Num 0, Endl,
                   Str ''Writing ChocolateTemperature, count '', Num 1, Endl],
           cerr = [],
           calls = [Write_Temperature \<lparr>sensor_id = ''s1'', degrees = 31\<rparr>, Sleep 4,
                    Write_Temperature \<lparr>sensor_id = ''s1'', degrees = 31\<rparr>, Sleep 4]\<rparr>"
    by code_simp
  moreover have "hello_loop calm_hello_env 2 0 0 initial_world =
     Some (Returned \<lparr>running = True,
           cout = [Str ''Writing HelloMessage, count '', Num 0, Endl,
                   Str ''Writing HelloMessage, count '', Num 1, Endl],
           cerr = [],
           calls = [Write_HelloMessage, Sleep 4, Write_HelloMessage, Sleep 4]\<rparr>)"
    by code_simp
  ultimately show ?thesis by simp
qed

text \<open>
  As stated for both publishers, the claim fails on the hello world loop when a
  \<^verbatim>\<open>write\<close> throws. No signal comes and the flag stays true, yet with sample count 3
  the loop is left in its second pass, after two writes; and with sample count 0 it is left
  in the same way, with the flag still true.
\<close>

theorem run_loop_sample_count_counterexample:
  "hello_loop throwing_hello_env 3 0 0 initial_world =
     Some (Thrown \<lparr>running = True,
           cout = [Str ''Writing HelloMessage, count '', Num 0, Endl,
                   Str ''Writing HelloMessage, count '', Num 1, Endl],
           cerr = [],
           calls = [Write_HelloMessage, Sleep 4, Write_HelloMessage]\<rparr>) \<and>
   hello_loop throwing_hello_env 0 0 0 initial_world =
     Some (Thrown \<lparr>running = True,
           cout = [Str ''Writing HelloMessage, count '', Num 0, Endl,
                   Str ''Writing HelloMessage, count '', Num 1, Endl],
           cerr = [],
           calls = [Write_HelloMessage, Sleep 4, Write_HelloMessage]\<rparr>)"
  by code_simp

lemma shutdown_sel:
  "fst (shutdown env p m st w) =
     (if p \<noteq> None \<and> (delete_contained_entities_result env \<noteq> DDS_RETCODE_OK env \<or>
                       delete_participant_result env \<noteq> DDS_RETCODE_OK env)
      then EXIT_FAILURE else st)"
  "running (snd (shutdown env p m st w)) = running w"
  "cout (snd (shutdown env p m st w)) = cout w @ [Str m, Endl]"
  "calls (snd (shutdown env p m st w)) =
     calls w @ (if p = None then [] else [Delete_contained_entities, Delete_participant])"
  "cerr (snd (shutdown env p m st w)) =
     cerr w @
     (if p = None then []
      else (if delete_contained_entities_result env \<noteq> DDS_RETCODE_OK env
            then [Str ''delete_contained_entities error '',
                  Num (delete_contained_entities_result env), Endl]
            else []) @
           (if delete_participant_result env \<noteq> DDS_RETCODE_OK env
            then [Str ''delete_participant error '', Num (delete_participant_result env), Endl]
            else []))"
  by (auto simp: shutdown_def Let_def put_cout_def put_cerr_def invoke_def)

text \<open>
  Claim C8. \<open>shutdown\<close> returns \<open>EXIT_FAILURE\<close> when a cleanup call it makes fails and
  the status it was given otherwise, so a status \<open>EXIT_FAILURE\<close> stays; \<open>temperature_main\<close>
  does the same with \<^verbatim>\<open>finalize_instance\<close> and the status of \<open>temperature_run_example\<close>.
\<close>

theorem shutdown_status:
  "fst (shutdown env participant shutdown_message status w) =
     (if participant \<noteq> None \<and>
         (delete_contained_entities_result env \<noteq> DDS_RETCODE_OK env \<or>
          delete_participant_result env \<noteq> DDS_RETCODE_OK env)
      then EXIT_FAILURE else status) \<and>
   (status = EXIT_FAILURE \<longrightarrow>
      fst (shutdown env participant shutdown_message status w) = EXIT_FAILURE) \<and>
   (parse_result arguments = PARSE_RETURN_OK \<and>
    temperature_run_example env (domain_id arguments) (sample_count arguments) sensor
      (set_verbosity (verbosity arguments) (setup_signal_handlers initial_world)) = Some (st, w3) \<longrightarrow>
      map_option fst (temperature_main env arguments sensor) =
        Some (if finalize_instance_result env \<noteq> DDS_RETCODE_OK env then EXIT_FAILURE else st))"
  by (auto simp: shutdown_sel temperature_main_def Let_def)

theorem shutdown_status_witness:
  "fst (shutdown teardown_failure_env (Some 1) ''shutting down'' EXIT_SUCCESS initial_world) =
     EXIT_FAILURE \<and>
   fst (shutdown calm_temperature_env (Some 1) ''create_topic error'' EXIT_FAILURE initial_world) =
     EXIT_FAILURE \<and>
   fst (shutdown calm_temperature_env (Some 1) ''shutting down'' EXIT_SUCCESS initial_world) =
     EXIT_SUCCESS \<and>
   map_option fst (temperature_main (calm_temperature_env\<lparr>finalize_instance_result := 4\<rparr>)
     \<lparr>parse_result = PARSE_RETURN_OK, domain_id = 0, sample_count = 1, verbosity = 0\<rparr> ''s1'') =
     Some EXIT_FAILURE"
proof -
  let ?env = "calm_temperature_env\<lparr>finalize_instance_result := 4\<rparr>"
  let ?args = "\<lparr>parse_result = PARSE_RETURN_OK, domain_id = 0, sample_count = 1, verbosity = 0\<rparr>"
  let ?w3 = "\<lparr>running = True,
      cout = [Str ''Writing ChocolateTemperature, count '', Num 0, Endl, Str ''shutting down'', Endl],
      cerr = [],
      calls = [Install_handler SIGINT, Install_handler SIGTERM, Set_verbosity 0,
               Create_participant 0, Create_publisher, Register_type,
               Create_topic ''ChocolateTemperature'', Create_datawriter, Narrow, Create_data,
               Write_Temperature \<lparr>sensor_id = ''s1'', degrees = 31\<rparr>, Sleep 4,
               Delete_data, Delete_contained_entities, Delete_participant]\<rparr>"
  have run: "temperature_run_example ?env (domain_id ?args) (sample_count ?args) ''s1''
      (set_verbosity (verbosity ?args) (setup_signal_handlers initial_world)) = Some (0, ?w3)"
    by code_simp
  have env: "finalize_instance_result ?env \<noteq> DDS_RETCODE_OK ?env"
    "delete_participant_result teardown_failure_env \<noteq> DDS_RETCODE_OK teardown_failure_env"
    "delete_participant_result calm_temperature_env = DDS_RETCODE_OK calm_temperature_env"
    "delete_contained_entities_result calm_temperature_env = DDS_RETCODE_OK calm_temperature_env"
    by (simp_all add: calm_temperature_env_def teardown_failure_env_def)
  have "fst (shutdown teardown_failure_env (Some 1) ''shutting down'' EXIT_SUCCESS initial_world) =
      EXIT_FAILURE"
    using shutdown_status [of teardown_failure_env "Some 1" "''shutting down''" EXIT_SUCCESS
      initial_world ?args "''s1''" 0 ?w3] env by simp
  moreover
  have "fst (shutdown calm_temperature_env (Some 1) ''create_topic error'' EXIT_FAILURE
          initial_world) = EXIT_FAILURE"
    using shutdown_status [of calm_temperature_env "Some 1" "''create_topic error''" EXIT_FAILURE
      initial_world ?args "''s1''" 0 ?w3] by simp
  moreover
  have "fst (shutdown calm_temperature_env (Some 1) ''shutting down'' EXIT_SUCCESS
          initial_world) = EXIT_SUCCESS"
    using shutdown_status [of calm_temperature_env "Some 1" "''shutting down''" EXIT_SUCCESS
      initial_world ?args "''s1''" 0 ?w3] env by simp
  moreover
  have "map_option fst (temperature_main ?env ?args ''s1'') = Some EXIT_FAILURE"
    using shutdown_status [of ?env "Some 1" "''shutting down''" EXIT_SUCCESS initial_world ?args
      "''s1''" 0 ?w3] run env(1) by simp
  ultimately show ?thesis by simp
qed

lemma temperature_run_example_setup_failure:
  assumes "i < length (setup_outcomes env)" and "fst (setup_outcomes env ! i)"
    and "\<forall>j<i. \<not> fst (setup_outcomes env ! j)"
  shows "temperature_run_example env domain limit sensor w =
           Some (shutdown env (create_participant_result env) (snd (setup_outcomes env ! i))
                   EXIT_FAILURE (w\<lparr>calls := calls w @ take (Suc i) (setup_calls domain)\<rparr>))"
proof -
  from assms(1) have "i \<in> {0, 1, 2, 3, 4, 5, 6}"
    by (auto simp: setup_outcomes_def)
  then consider "i = 0" | "i = Suc 0" | "i = Suc (Suc 0)" | "i = Suc (Suc (Suc 0))"
    | "i = Suc (Suc (Suc (Suc 0)))" | "i = Suc (Suc (Suc (Suc (Suc 0))))"
    | "i = Suc (Suc (Suc (Suc (Suc (Suc 0)))))"
    by (auto simp: eval_nat_numeral)
  then show ?thesis
    using assms(2,3)
    by cases
       (simp_all add: setup_outcomes_def setup_calls_def temperature_run_example_def Let_def
          invoke_def All_less_Suc del: not_None_eq)
qed

lemma temperature_run_example_setup_ok:
  assumes "\<forall>j<length (setup_outcomes env). \<not> fst (setup_outcomes env ! j)"
  shows "temperature_run_example env domain limit sensor w =
           (case temperature_loop env limit sensor 0 0
                   (w\<lparr>calls := calls w @ setup_calls domain\<rparr>) of
              None \<Rightarrow> None
            | Some w8 \<Rightarrow>
                Some (shutdown env (create_participant_result env) ''shutting down'' EXIT_SUCCESS
                  (put_cerr
                     (if delete_data_result env \<noteq> DDS_RETCODE_OK env
                      then [Str ''TemperatureTypeSupport::delete_data error '',
                            Num (delete_data_result env), Endl]
                      else [])
                     (invoke Delete_data w8))))"
proof -
  from assms have ok: "create_participant_result env \<noteq> None"
    "create_publisher_result env \<noteq> None"
    "register_type_result env = DDS_RETCODE_OK env" "create_topic_result env \<noteq> None"
    "create_datawriter_result env \<noteq> None" "narrow_result env \<noteq> None"
    "create_data_result env \<noteq> None"
    by (simp_all add: setup_outcomes_def All_less_Suc del: not_None_eq)
  have w7: "invoke Create_data (invoke Narrow (invoke Create_datawriter
      (invoke (Create_topic ''ChocolateTemperature'') (invoke Register_type
        (invoke Create_publisher (invoke (Create_participant (uint domain)) w)))))) =
      w\<lparr>calls := calls w @ setup_calls domain\<rparr>"
    by (simp add: invoke_def setup_calls_def)
  show ?thesis
    unfolding temperature_run_example_def Let_def w7
    using ok by (simp add: put_cerr_def split: option.split del: not_None_eq)
qed

lemma teardown_status:
  assumes "\<forall>j<length (setup_outcomes env). \<not> fst (setup_outcomes env ! j)"
  shows "fst (shutdown env (create_participant_result env) m EXIT_SUCCESS w) =
           (if delete_contained_entities_result env \<noteq> DDS_RETCODE_OK env \<or>
               delete_participant_result env \<noteq> DDS_RETCODE_OK env
            then EXIT_FAILURE else EXIT_SUCCESS)"
    and "teardown_calls env = [Delete_contained_entities, Delete_participant]"
proof -
  from assms have "create_participant_result env \<noteq> None"
    by (simp add: setup_outcomes_def All_less_Suc del: not_None_eq)
  then show "fst (shutdown env (create_participant_result env) m EXIT_SUCCESS w) =
           (if delete_contained_entities_result env \<noteq> DDS_RETCODE_OK env \<or>
               delete_participant_result env \<noteq> DDS_RETCODE_OK env
            then EXIT_FAILURE else EXIT_SUCCESS)"
    and "teardown_calls env = [Delete_contained_entities, Delete_participant]"
    by (simp_all add: shutdown_sel teardown_calls_def del: not_None_eq)
qed

text \<open>
  Claim C7, as the publisher does it. When a step of the set-up fails (an entity creation
  or \<^verbatim>\<open>create_data\<close> returns \<^verbatim>\<open>NULL\<close>, \<^verbatim>\<open>register_type\<close> does not return
  \<^verbatim>\<open>DDS_RETCODE_OK\<close>, \<^verbatim>\<open>narrow\<close> returns \<^verbatim>\<open>NULL\<close>), \<open>temperature_run_example\<close>
  makes no later set-up call and no \<^verbatim>\<open>write\<close>, prints the step's message on
  \<^verbatim>\<open>std::cout\<close> (no return code, nothing on \<^verbatim>\<open>std::cerr\<close> but what the teardown
  reports), tears down and returns \<open>EXIT_FAILURE\<close>. A \<^verbatim>\<open>write\<close> that fails is reported on
  \<^verbatim>\<open>std::cerr\<close> with its return code, and the loop goes on to its next pass. When the
  whole set-up succeeds, the status returned is decided by the two calls of the teardown
  alone, whatever the writes return; and with a sample count above 0 and no signal, every
  one of the writes is made, each failure among them reported on \<^verbatim>\<open>std::cerr\<close>.
\<close>

theorem temperature_run_example_failures:
  "(i < length (setup_outcomes env) \<and> fst (setup_outcomes env ! i) \<and>
    (\<forall>j<i. \<not> fst (setup_outcomes env ! j)) \<longrightarrow>
      (\<exists>w'. temperature_run_example env domain limit sensor w = Some (EXIT_FAILURE, w') \<and>
         calls w' = calls w @ take (Suc i) (setup_calls domain) @ teardown_calls env \<and>
         cout w' = cout w @ [Str (snd (setup_outcomes env ! i)), Endl] \<and>
         cerr w' = cerr w @ teardown_errors env \<and>
         running w' = running w)) \<and>
   (running w \<and> \<not> signals env k \<and> (limit = 0 \<or> count < limit) \<and>
    write_result env k \<noteq> DDS_RETCODE_OK env \<longrightarrow>
      temperature_loop env limit sensor k count w =
      temperature_loop env limit sensor (Suc k) (count + 1)
        (w\<lparr>cout := cout w @ [Str ''Writing ChocolateTemperature, count '', Num (uint count), Endl],
           cerr := cerr w @ [Str ''write error '', Num (write_result env k), Endl],
           calls := calls w @
             [Write_Temperature \<lparr>sensor_id = take 254 sensor,
                                  degrees = int (rand_result env k mod 3) + 30\<rparr>, Sleep 4]\<rparr>)) \<and>
   ((\<forall>j<length (setup_outcomes env). \<not> fst (setup_outcomes env ! j)) \<longrightarrow>
      map_option fst (temperature_run_example env domain limit sensor w) =
      map_option
        (\<lambda>w8. if delete_contained_entities_result env \<noteq> DDS_RETCODE_OK env \<or>
                  delete_participant_result env \<noteq> DDS_RETCODE_OK env
               then EXIT_FAILURE else EXIT_SUCCESS)
        (temperature_loop env limit sensor 0 0 (w\<lparr>calls := calls w @ setup_calls domain\<rparr>))) \<and>
   ((\<forall>j<length (setup_outcomes env). \<not> fst (setup_outcomes env ! j)) \<and>
    limit \<noteq> 0 \<and> running w \<and> (\<forall>j<unat limit. \<not> signals env j) \<longrightarrow>
      (\<exists>w'. temperature_run_example env domain limit sensor w =
           Some (if delete_contained_entities_result env \<noteq> DDS_RETCODE_OK env \<or>
                    delete_participant_result env \<noteq> DDS_RETCODE_OK env
                 then EXIT_FAILURE else EXIT_SUCCESS, w') \<and>
         calls w' = calls w @ setup_calls domain @
           concat (map (\<lambda>j. [Write_Temperature \<lparr>sensor_id = take 254 sensor,
                                   degrees = int (rand_result env j mod 3) + 30\<rparr>, Sleep 4])
                     [0 ..< unat limit]) @
           [Delete_data, Delete_contained_entities, Delete_participant] \<and>
         cerr w' = cerr w @
           concat (map (\<lambda>j. if write_result env j \<noteq> DDS_RETCODE_OK env
                              then [Str ''write error '', Num (write_result env j), Endl]
                              else []) [0 ..< unat limit]) @
           (if delete_data_result env \<noteq> DDS_RETCODE_OK env
            then [Str ''TemperatureTypeSupport::delete_data error '',
                  Num (delete_data_result env), Endl]
            else []) @
           teardown_errors env))"
proof (intro conjI impI, goal_cases)
  case 1
  then have run: "temperature_run_example env domain limit sensor w =
      Some (shutdown env (create_participant_result env) (snd (setup_outcomes env ! i))
              EXIT_FAILURE (w\<lparr>calls := calls w @ take (Suc i) (setup_calls domain)\<rparr>))"
    by (intro temperature_run_example_setup_failure) simp_all
  let ?r = "shutdown env (create_participant_result env) (snd (setup_outcomes env ! i))
              EXIT_FAILURE (w\<lparr>calls := calls w @ take (Suc i) (setup_calls domain)\<rparr>)"
  have "fst ?r = EXIT_FAILURE"
    "calls (snd ?r) = calls w @ take (Suc i) (setup_calls domain) @ teardown_calls env"
    "cout (snd ?r) = cout w @ [Str (snd (setup_outcomes env ! i)), Endl]"
    "cerr (snd ?r) = cerr w @ teardown_errors env"
    "running (snd ?r) = running w"
    by (simp_all add: shutdown_sel teardown_calls_def teardown_errors_def)
  then show ?case
    unfolding run by (cases ?r) auto
next
  case 2
  then have "deliver env k w = w"
    by (simp add: deliver_def)
  with 2 show ?case
    by (subst temperature_loop_step)
       (auto simp: temperature_pass_def Let_def put_cout_def put_cerr_def invoke_def)
next
  case 3
  show ?case
    unfolding temperature_run_example_setup_ok [OF 3]
    by (simp add: teardown_status(1) [OF 3] split: option.split)
next
  case 4
  then have ok: "\<forall>j<length (setup_outcomes env). \<not> fst (setup_outcomes env ! j)"
    by simp
  let ?w7 = "w\<lparr>calls := calls w @ setup_calls domain\<rparr>"
  from 4 have loop: "temperature_loop env limit sensor 0 0 ?w7 =
      Some (deliver env (unat limit) (temperature_passes env sensor (unat limit) ?w7))"
    by (intro temperature_loop_limit) simp_all
  let ?w8 = "deliver env (unat limit) (temperature_passes env sensor (unat limit) ?w7)"
  let ?r = "shutdown env (create_participant_result env) ''shutting down'' EXIT_SUCCESS
      (put_cerr
         (if delete_data_result env \<noteq> DDS_RETCODE_OK env
          then [Str ''TemperatureTypeSupport::delete_data error '',
                Num (delete_data_result env), Endl]
          else [])
         (invoke Delete_data ?w8))"
  have run: "temperature_run_example env domain limit sensor w = Some ?r"
    unfolding temperature_run_example_setup_ok [OF ok] loop by simp
  have "create_participant_result env \<noteq> None"
    using teardown_status(2) [OF ok] by (auto simp: teardown_calls_def split: if_splits)
  then have "calls (snd ?r) = calls w @ setup_calls domain @
           concat (map (\<lambda>j. [Write_Temperature \<lparr>sensor_id = take 254 sensor,
                                   degrees = int (rand_result env j mod 3) + 30\<rparr>, Sleep 4])
                     [0 ..< unat limit]) @
           [Delete_data, Delete_contained_entities, Delete_participant]"
    "cerr (snd ?r) = cerr w @
           concat (map (\<lambda>j. if write_result env j \<noteq> DDS_RETCODE_OK env
                              then [Str ''write error '', Num (write_result env j), Endl]
                              else []) [0 ..< unat limit]) @
           (if delete_data_result env \<noteq> DDS_RETCODE_OK env
            then [Str ''TemperatureTypeSupport::delete_data error '',
                  Num (delete_data_result env), Endl]
            else []) @
           teardown_errors env"
    by (simp_all add: shutdown_sel deliver_sel temperature_passes_sel put_cerr_def invoke_def
          teardown_errors_def del: not_None_eq)
  moreover have "fst ?r =
      (if delete_contained_entities_result env \<noteq> DDS_RETCODE_OK env \<or>
          delete_participant_result env \<noteq> DDS_RETCODE_OK env
       then EXIT_FAILURE else EXIT_SUCCESS)"
    by (rule teardown_status(1) [OF ok])
  ultimately show ?case
    unfolding run by (cases ?r) (simp del: not_None_eq)
qed

theorem temperature_run_example_failures_witness:
  "temperature_run_example publisher_failure_env 0 2 ''s1'' initial_world =
     Some (EXIT_FAILURE,
           \<lparr>running = True, cout = [Str ''create_publisher error'', Endl], cerr = [],
            calls = [Create_participant 0, Create_publisher,
                     Delete_contained_entities, Delete_participant]\<rparr>) \<and>
   map_option fst (temperature_run_example write_failure_env 0 3 ''s1'' initial_world) =
     Some EXIT_SUCCESS"
proof -
  have "Suc 0 < length (setup_outcomes publisher_failure_env) \<and>
        fst (setup_outcomes publisher_failure_env ! Suc 0) \<and>
        (\<forall>j<Suc 0. \<not> fst (setup_outcomes publisher_failure_env ! j))"
    by (simp add: setup_outcomes_def publisher_failure_env_def calm_temperature_env_def)
  with temperature_run_example_failures [of "Suc 0" publisher_failure_env 0 2 "''s1''"
      initial_world 0 0, THEN conjunct1]
  obtain w' where "temperature_run_example publisher_failure_env 0 2 ''s1'' initial_world =
      Some (EXIT_FAILURE, w')"
    and "calls w' = calls initial_world @ take (Suc (Suc 0)) (setup_calls 0) @
           teardown_calls publisher_failure_env"
    and "cout w' = cout initial_world @ [Str (snd (setup_outcomes publisher_failure_env ! Suc 0)), Endl]"
    and "cerr w' = cerr initial_world @ teardown_errors publisher_failure_env"
    and "running w' = running initial_world"
    by blast
  then have first: "temperature_run_example publisher_failure_env 0 2 ''s1'' initial_world =
     Some (EXIT_FAILURE,
           \<lparr>running = True, cout = [Str ''create_publisher error'', Endl], cerr = [],
            calls = [Create_participant 0, Create_publisher,
                     Delete_contained_entities, Delete_participant]\<rparr>)"
    by (cases w')
       (simp add: initial_world_def setup_calls_def setup_outcomes_def teardown_calls_def
          teardown_errors_def publisher_failure_env_def calm_temperature_env_def)
  have "(\<forall>j<length (setup_outcomes write_failure_env). \<not> fst (setup_outcomes write_failure_env ! j)) \<and>
        (3 :: 32 word) \<noteq> 0 \<and> running initial_world \<and>
        (\<forall>j<unat (3 :: 32 word). \<not> signals write_failure_env j)"
    by (simp add: setup_outcomes_def write_failure_env_def calm_temperature_env_def
          initial_world_def All_less_Suc)
  with temperature_run_example_failures [of 0 write_failure_env 0 3 "''s1''"
      initial_world 0 0, THEN conjunct2, THEN conjunct2, THEN conjunct2]
  obtain w'' where "temperature_run_example write_failure_env 0 3 ''s1'' initial_world =
      Some (if delete_contained_entities_result write_failure_env \<noteq>
                 DDS_RETCODE_OK write_failure_env \<or>
               delete_participant_result write_failure_env \<noteq> DDS_RETCODE_OK write_failure_env
            then EXIT_FAILURE else EXIT_SUCCESS, w'')"
    by blast
  then have "map_option fst (temperature_run_example write_failure_env 0 3 ''s1'' initial_world) =
      Some EXIT_SUCCESS"
    by (simp add: write_failure_env_def calm_temperature_env_def)
  with first show ?thesis by simp
qed

text \<open>
  The claim as stated fails twice on the publisher. A failing \<^verbatim>\<open>write\<close> does not end the
  run: with sample count 2 both writes are made and the status is \<open>EXIT_SUCCESS\<close>. A failing
  \<^verbatim>\<open>create_publisher\<close> is reported on \<^verbatim>\<open>std::cout\<close>, without a return code, and leaves
  \<^verbatim>\<open>std::cerr\<close> empty.
\<close>

theorem temperature_run_example_counterexample:
  "temperature_run_example write_failure_env 0 2 ''s1'' initial_world =
     Some (EXIT_SUCCESS,
           \<lparr>running = True,
            cout = [Str ''Writing ChocolateTemperature, count '', Num 0, Endl,
                    Str ''Writing ChocolateTemperature, count '', Num 1, Endl,
                    Str ''shutting down'', Endl],
            cerr = [Str ''write error '', Num 1, Endl, Str ''write error '', Num 1, Endl],
            calls = [Create_participant 0, Create_publisher, Register_type,
                     Create_topic ''ChocolateTemperature'', Create_datawriter, Narrow, Create_data,
                     Write_Temperature \<lparr>sensor_id = ''s1'', degrees = 31\<rparr>, Sleep 4,
                     Write_Temperature \<lparr>sensor_id = ''s1'', degrees = 31\<rparr>, Sleep 4,
                     Delete_data, Delete_contained_entities, Delete_participant]\<rparr>) \<and>
   temperature_run_example publisher_failure_env 0 2 ''s1'' initial_world =
     Some (EXIT_FAILURE,
           \<lparr>running = True, cout = [Str ''create_publisher error'', Endl], cerr = [],
            calls = [Create_participant 0, Create_publisher,
                     Delete_contained_entities, Delete_participant]\<rparr>)"
  by code_simp

lemma hello_loop_running:
  assumes "hello_loop env limit k count w = Some r"
  shows "\<not> running w \<longrightarrow> \<not> running (world_of r)"
  by (rule hello_loop.raw_induct
        [where P = "\<lambda>env limit k count w r. \<not> running w \<longrightarrow> \<not> running (world_of r)",
         OF _ assms])
     (auto simp: Let_def deliver_def stop_handler_def put_cout_def invoke_def world_of_def
           split: if_splits)

lemma world_sel:
  "running (put_cout xs w) = running w" "running (put_cerr xs w) = running w"
  "running (invoke c w) = running w" "running (setup_signal_handlers w) = running w"
  "running (set_verbosity v w) = running w" "running (stop_handler w) = False"
  by (simp_all add: put_cout_def put_cerr_def invoke_def setup_signal_handlers_def
        set_verbosity_def stop_handler_def)

lemma hello_run_example_running:
  assumes "hello_run_example env domain limit w = Some r" and "\<not> running w"
  shows "\<not> running (world_of r)"
proof (cases "participant_throws env \<or> topic_throws env \<or> publisher_throws env \<or>
    datawriter_throws env")
  case True
  with assms show ?thesis
    by (auto simp: hello_run_example_def Let_def world_of_def world_sel split: if_splits)
next
  case False
  with assms(1) have "hello_loop env limit 0 0
      (invoke Create_datawriter (invoke Create_publisher
        (invoke (Create_topic ''Example HelloMessage'') (invoke (Create_participant domain) w)))) =
      Some r"
    by (simp add: hello_run_example_def Let_def)
  from hello_loop_running [OF this] assms(2) show ?thesis
    by (simp add: world_sel)
qed

lemma shutdown_running: "shutdown env p m st w = (st', w') \<Longrightarrow> running w' = running w"
  using shutdown_sel(2) [of env p m st w] by simp

lemma temperature_run_example_running:
  assumes "temperature_run_example env domain limit sensor w = Some (st, w')" and "\<not> running w"
  shows "\<not> running w'"
proof (cases "temperature_loop env limit sensor 0 0
    (invoke Create_data (invoke Narrow (invoke Create_datawriter
      (invoke (Create_topic ''ChocolateTemperature'') (invoke Register_type
        (invoke Create_publisher (invoke (Create_participant (uint domain)) w)))))))")
  case None
  with assms show ?thesis
    unfolding temperature_run_example_def Let_def
    by (simp split: if_splits add: world_sel del: not_None_eq)
       (simp_all add: shutdown_running world_sel)
next
  case (Some w8)
  from temperature_loop_running [OF this] assms(2) have "\<not> running w8"
    by (simp add: world_sel)
  with assms Some show ?thesis
    unfolding temperature_run_example_def Let_def
    by (simp split: if_splits add: world_sel del: not_None_eq)
       (simp_all add: shutdown_running world_sel)
qed

text \<open>
  Claim C5. \<^verbatim>\<open>running\<close> starts true; \<open>stop_handler\<close> makes it false; and once it is
  false, every operation of the two publishers leaves it false: the delivery of a signal,
  the installation of the handlers, every output and every call into the middleware, the
  two loops from any pass on, the two \<^verbatim>\<open>run_example\<close> functions and \<open>shutdown\<close>.
\<close>

theorem running_fire_once:
  fixes tenv :: temperature_env and henv :: hello_env and env :: "'a environment_scheme"
  shows
  "running initial_world \<and>
   \<not> running (stop_handler w) \<and>
   (\<not> running w \<longrightarrow>
      \<not> running (deliver env k w) \<and> \<not> running (setup_signal_handlers w) \<and>
      \<not> running (set_verbosity v w) \<and> \<not> running (put_cout xs w) \<and>
      \<not> running (put_cerr xs w) \<and> \<not> running (invoke c w) \<and>
      \<not> running (snd (shutdown tenv participant shutdown_message status w))) \<and>
   (\<not> running w \<and> temperature_loop tenv limit sensor k count w = Some w1 \<longrightarrow> \<not> running w1) \<and>
   (\<not> running w \<and> temperature_run_example tenv domain limit sensor w = Some (st, w2) \<longrightarrow>
      \<not> running w2) \<and>
   (\<not> running w \<and> hello_loop henv hlimit k hcount w = Some r1 \<longrightarrow>
      \<not> running (world_of r1)) \<and>
   (\<not> running w \<and> hello_run_example henv hdomain hlimit w = Some r2 \<longrightarrow>
      \<not> running (world_of r2))"
proof (intro conjI impI, goal_cases)
  case 1
  show ?case by (simp add: initial_world_def)
next
  case 2
  show ?case by (simp add: world_sel)
next
  case 3 then show ?case by (simp add: deliver_def world_sel)
next
  case 4 then show ?case by (simp add: world_sel)
next
  case 5 then show ?case by (simp add: world_sel)
next
  case 6 then show ?case by (simp add: world_sel)
next
  case 7 then show ?case by (simp add: world_sel)
next
  case 8 then show ?case by (simp add: world_sel)
next
  case 9 then show ?case by (simp add: shutdown_sel)
next
  case 10
  then show ?case using temperature_loop_running [of tenv limit sensor k count w w1] by simp
next
  case 11
  then show ?case using temperature_run_example_running [of tenv domain limit sensor w st w2] by simp
next
  case 12
  then show ?case using hello_loop_running [of henv hlimit k hcount w r1] by simp
next
  case 13
  then show ?case using hello_run_example_running [of henv hdomain hlimit w r2] by simp
qed

theorem running_fire_once_witness:
  "running initial_world \<and> \<not> running (stop_handler initial_world) \<and>
   \<not> running (snd (shutdown calm_temperature_env (Some 1) ''shutting down'' EXIT_SUCCESS
     (stop_handler initial_world))) \<and>
   temperature_run_example calm_temperature_env 0 2 ''s1'' (stop_handler initial_world) =
     Some (EXIT_SUCCESS,
           \<lparr>running = False,
            cout = [Str ''preparing to shut down...'', Endl, Str ''shutting down'', Endl],
            cerr = [],
            calls = [Create_participant 0, Create_publisher, Register_type,
                     Create_topic ''ChocolateTemperature'', Create_datawriter, Narrow, Create_data,
                     Delete_data, Delete_contained_entities, Delete_participant]\<rparr>) \<and>
   hello_loop calm_hello_env 0 0 0 (stop_handler initial_world) =
     Some (Returned \<lparr>running = False, cout = [Str ''preparing to shut down...'', Endl],
                     cerr = [], calls = []\<rparr>)"
proof -
  note inst = running_fire_once [where w = "stop_handler initial_world"
      and tenv = calm_temperature_env and henv = calm_hello_env and env = calm_hello_env
      and participant = "Some 1" and shutdown_message = "''shutting down''"
      and status = EXIT_SUCCESS]
  have a: "running initial_world"
    using inst by blast
  have b: "\<not> running (stop_handler initial_world)"
    using running_fire_once [where w = initial_world and tenv = calm_temperature_env
      and henv = calm_hello_env and env = calm_hello_env] by blast
  have c: "\<not> running (snd (shutdown calm_temperature_env (Some 1) ''shutting down'' EXIT_SUCCESS
     (stop_handler initial_world)))"
    using inst b by blast
  have "temperature_run_example calm_temperature_env 0 2 ''s1'' (stop_handler initial_world) =
     Some (EXIT_SUCCESS,
           \<lparr>running = False,
            cout = [Str ''preparing to shut down...'', Endl, Str ''shutting down'', Endl],
            cerr = [],
            calls = [Create_participant 0, Create_publisher, Register_type,
                     Create_topic ''ChocolateTemperature'', Create_datawriter, Narrow, Create_data,
                     Delete_data, Delete_contained_entities, Delete_participant]\<rparr>)"
    by code_simp
  moreover have "hello_loop calm_hello_env 0 0 0 (stop_handler initial_world) =
     Some (Returned \<lparr>running = False, cout = [Str ''preparing to shut down...'', Endl],
                     cerr = [], calls = []\<rparr>)"
    by code_simp
  ultimately show ?thesis
    using a b c by simp
qed

end
